theory Spec2Isabelle
  imports Complex_Main
begin

section \<open>The income fluctuation problem: data model\<close>

text \<open>
  The notebook \<^verbatim>\<open>ifp_advanced_code.ipynb\<close> computes with float64 numbers. They are
  modelled as the real numbers: \<^verbatim>\<open>np.exp\<close> is \<open>exp\<close>, \<^verbatim>\<open>c**(-\<gamma>)\<close> on a positive
  base is \<open>powr\<close>. A one-dimensional array is a list; the transition matrix is the
  list of its rows; a policy array (shape \<^verbatim>\<open>(n, 2)\<close> in the notebook) is the list of its
  columns, since the code reads and writes it by column (\<^verbatim>\<open>c_vec[:, z]\<close>).

  Everything that raises in Python is a value of \<open>error\<close>. Two further values of
  \<open>error\<close> are no exceptions of the code but mark where the model ends.
  \<open>NonPositiveBase\<close> marks a power \<^verbatim>\<open>c**(-\<gamma>)\<close> taken at \<open>c \<le> 0\<close>: there the code raises
  nothing and goes on with \<^verbatim>\<open>inf\<close> or \<^verbatim>\<open>nan\<close> (or, for a negative \<open>c\<close> and an integral
  \<open>\<gamma>\<close>, with a finite number), none of which the real-valued model computes.
  \<open>Uninitialised\<close> marks an array returned with cells of \<^verbatim>\<open>np.empty_like\<close> that were
  never written.
\<close>

datatype error =
    IndexError
  | ZeroDivisionError
  | ValueError
  | UnboundLocalError
  | NonPositiveBase
  | Uninitialised

record IFP =
  \<gamma> :: real
  \<beta> :: real
  P :: "real list list"
  \<sigma>_vec :: "real list"
  s :: real
  a_grid :: "real list"
  \<eta>_draws :: "real list"
  \<zeta>_draws :: "real list"

type_synonym policy = "real list list"

text \<open>
  The two library routines the notebook imports are parameters of the model:
  \<^verbatim>\<open>interp(grid, column, x)\<close> of the package \<^verbatim>\<open>interpolation\<close>, and
  \<^verbatim>\<open>brentq(f, lo, hi, maxiter=12, disp=False).root\<close> of \<^verbatim>\<open>quantecon\<close>, which
  may raise. Where its target function yields \<open>NonPositiveBase\<close> the code hands the root
  finder a non-finite float, not an exception, and the root finder may still return a
  root: so it does at the grid point of zero assets, where every value of the residual
  contains \<open>u'(0)\<close>.
\<close>

type_synonym interp_fn = "real list \<Rightarrow> real list \<Rightarrow> real \<Rightarrow> real"

type_synonym brentq_fn = "(real \<Rightarrow> error + real) \<Rightarrow> real \<Rightarrow> real \<Rightarrow> error + real"

subsection \<open>Array access\<close>

definition getitem :: "real list \<Rightarrow> nat \<Rightarrow> error + real" where
  "getitem xs i = (if i < length xs then Inr (xs ! i) else Inl IndexError)"

definition getitem2 :: "real list list \<Rightarrow> nat \<Rightarrow> nat \<Rightarrow> error + real" where
  "getitem2 M i j =
     (if i < length M \<and> j < length (M ! i) then Inr (M ! i ! j) else Inl IndexError)"

definition column :: "policy \<Rightarrow> nat \<Rightarrow> error + real list" where
  "column c_vec z = (if z < length c_vec then Inr (c_vec ! z) else Inl IndexError)"

text \<open>A \<^verbatim>\<open>for\<close> loop over a sequence that updates one variable and may raise.\<close>

fun for_loop :: "('x \<Rightarrow> 'acc \<Rightarrow> error + 'acc) \<Rightarrow> 'x list \<Rightarrow> 'acc \<Rightarrow> error + 'acc" where
  "for_loop body [] acc = Inr acc"
| "for_loop body (x # xs) acc =
     (case body x acc of Inl e \<Rightarrow> Inl e | Inr acc' \<Rightarrow> for_loop body xs acc')"

subsection \<open>The methods of class \<^verbatim>\<open>IFP\<close>\<close>

definition u_prime :: "IFP \<Rightarrow> real \<Rightarrow> error + real" where
  "u_prime ifp c = (if 0 < c then Inr (c powr (- \<gamma> ifp)) else Inl NonPositiveBase)"

definition R :: "IFP \<Rightarrow> nat \<Rightarrow> real \<Rightarrow> error + real" where
  "R ifp z \<zeta> =
     (case getitem (\<sigma>_vec ifp) z of Inl e \<Rightarrow> Inl e | Inr sg \<Rightarrow> Inr (exp (sg * \<zeta>)))"

definition Y :: "IFP \<Rightarrow> real \<Rightarrow> real" where
  "Y ifp \<eta> = exp (s ifp * \<eta>)"

section \<open>The Euler residual\<close>

text \<open>
  The body of the innermost loop of \<^verbatim>\<open>euler_diff\<close>: the summand added to \<^verbatim>\<open>Ez\<close> for
  one next-period state and one pair of draws, in the order Python evaluates it.
\<close>

definition euler_term ::
  "interp_fn \<Rightarrow> real \<Rightarrow> policy \<Rightarrow> real \<Rightarrow> nat \<Rightarrow> IFP \<Rightarrow> nat \<Rightarrow> real \<Rightarrow> real \<Rightarrow> error + real" where
  "euler_term interp t c_vec a z ifp z_hat \<eta> \<zeta> =
     (case R ifp z_hat \<zeta> of Inl e \<Rightarrow> Inl e | Inr R_hat \<Rightarrow>
        let Y_hat = Y ifp \<eta> in
        (case column c_vec z_hat of Inl e \<Rightarrow> Inl e | Inr col \<Rightarrow>
           (case u_prime ifp (interp (a_grid ifp) col (R_hat * (a - t) + Y_hat)) of
              Inl e \<Rightarrow> Inl e
            | Inr up \<Rightarrow>
                (case getitem2 (P ifp) z z_hat of
                   Inl e \<Rightarrow> Inl e
                 | Inr p \<Rightarrow> Inr (R_hat * up * p)))))"

text \<open>
  The three nested loops: \<^verbatim>\<open>for z_hat in (0, 1)\<close>, \<^verbatim>\<open>for \<eta> in ifp.\<eta>_draws\<close>,
  \<^verbatim>\<open>for \<zeta> in ifp.\<zeta>_draws\<close>, starting from \<^verbatim>\<open>Ez = 0.0\<close>.
\<close>

definition Ez_loop :: "interp_fn \<Rightarrow> real \<Rightarrow> policy \<Rightarrow> real \<Rightarrow> nat \<Rightarrow> IFP \<Rightarrow> error + real" where
  "Ez_loop interp t c_vec a z ifp =
     for_loop (\<lambda>z_hat Ez.
       for_loop (\<lambda>\<eta> Ez.
         for_loop (\<lambda>\<zeta> Ez.
           (case euler_term interp t c_vec a z ifp z_hat \<eta> \<zeta> of
              Inl e \<Rightarrow> Inl e
            | Inr v \<Rightarrow> Inr (Ez + v)))
         (\<zeta>_draws ifp) Ez)
       (\<eta>_draws ifp) Ez)
     [0, 1] 0"

text \<open>
  \<^verbatim>\<open>euler_diff(t, c_vec, a, z, ifp)\<close>. The local names \<^verbatim>\<open>\<eta>_draws\<close> and \<^verbatim>\<open>\<zeta>_draws\<close> are
  both bound to \<^verbatim>\<open>ifp.\<eta>_draws\<close>, so the divisor is the square of the number of \<open>\<eta>\<close> draws;
  dividing a float by the integer zero raises.
\<close>

definition euler_diff ::
  "interp_fn \<Rightarrow> real \<Rightarrow> policy \<Rightarrow> real \<Rightarrow> nat \<Rightarrow> IFP \<Rightarrow> error + real" where
  "euler_diff interp t c_vec a z ifp =
     (let \<eta>_local = \<eta>_draws ifp; \<zeta>_local = \<eta>_draws ifp in
      case Ez_loop interp t c_vec a z ifp of Inl e \<Rightarrow> Inl e | Inr Ez_sum \<Rightarrow>
        if length \<eta>_local * length \<zeta>_local = 0 then Inl ZeroDivisionError
        else
          let Ez = Ez_sum / real (length \<eta>_local * length \<zeta>_local) in
          (case u_prime ifp t of Inl e \<Rightarrow> Inl e | Inr ut \<Rightarrow>
             (case u_prime ifp a of Inl e \<Rightarrow> Inl e | Inr ua \<Rightarrow>
                Inr (ut - max (\<beta> ifp * Ez) ua))))"

section \<open>The operator \<^verbatim>\<open>K\<close>\<close>

text \<open>
  \<^verbatim>\<open>np.empty_like(c_vec)\<close> allocates an array of the shape of \<^verbatim>\<open>c_vec\<close> whose cells hold
  nothing yet (\<open>None\<close>); \<^verbatim>\<open>c_new[i, z] = v\<close> writes one cell and raises outside the shape.
\<close>

definition empty_like :: "policy \<Rightarrow> real option list list" where
  "empty_like c_vec = map (map (\<lambda>_. None)) c_vec"

definition setitem2 ::
  "real option list list \<Rightarrow> nat \<Rightarrow> nat \<Rightarrow> real \<Rightarrow> error + real option list list" where
  "setitem2 c_new i z v =
     (if z < length c_new \<and> i < length (c_new ! z)
      then Inr (c_new[z := (c_new ! z)[i := Some v]])
      else Inl IndexError)"

definition initialised :: "real option list list \<Rightarrow> error + policy" where
  "initialised c_new =
     (if list_all (list_all (\<lambda>v. v \<noteq> None)) c_new
      then Inr (map (map the) c_new)
      else Inl Uninitialised)"

text \<open>
  \<^verbatim>\<open>K(c_vec, ifp)\<close>: for every grid index \<open>i\<close> and for \<open>z\<close> in \<^verbatim>\<open>(0, 1)\<close>, the root that
  \<^verbatim>\<open>brentq\<close> returns for \<^verbatim>\<open>euler_diff\<close> on the bracket from \<^verbatim>\<open>1e-10\<close> to \<^verbatim>\<open>a_grid[i]\<close>.
\<close>

definition K :: "brentq_fn \<Rightarrow> interp_fn \<Rightarrow> policy \<Rightarrow> IFP \<Rightarrow> error + policy" where
  "K brentq interp c_vec ifp =
     (case
        for_loop (\<lambda>i c_new.
          (case getitem (a_grid ifp) i of Inl e \<Rightarrow> Inl e | Inr a \<Rightarrow>
             for_loop (\<lambda>z c_new.
               (case brentq (\<lambda>t. euler_diff interp t c_vec a z ifp) (1 / 10 ^ 10) a of
                  Inl e \<Rightarrow> Inl e
                | Inr c_star \<Rightarrow> setitem2 c_new i z c_star))
             [0, 1] c_new))
        [0 ..< length (a_grid ifp)] (empty_like c_vec)
      of Inl e \<Rightarrow> Inl e | Inr c_new \<Rightarrow> initialised c_new)"

section \<open>The solver\<close>

text \<open>
  \<^verbatim>\<open>np.max(np.abs(c - c_new))\<close>. In \<^verbatim>\<open>solve_model\<close> both arrays have the same shape;
  numpy's broadcasting of unequal shapes is not modelled and is reported as an error, as
  is the maximum of an array without elements.
\<close>

definition np_max_abs_diff :: "policy \<Rightarrow> policy \<Rightarrow> error + real" where
  "np_max_abs_diff c c_new =
     (if map length c \<noteq> map length c_new then Inl ValueError
      else
        (case concat (map2 (map2 (\<lambda>x y. \<bar>x - y\<bar>)) c c_new) of
           [] \<Rightarrow> Inl ValueError
         | d # ds \<Rightarrow> Inr (fold max ds d)))"

text \<open>What \<^verbatim>\<open>solve_model\<close> prints, one value per \<^verbatim>\<open>print\<close> call.\<close>

datatype message =
    Error_at_iteration int real
  | Failed_to_converge
  | Converged_in int

text \<open>
  The \<^verbatim>\<open>while\<close> loop of \<^verbatim>\<open>solve_model\<close> on its variables \<^verbatim>\<open>i\<close>, \<^verbatim>\<open>error\<close>, \<^verbatim>\<open>c\<close>,
  \<^verbatim>\<open>c_new\<close> (unbound before the first pass) and the text printed so far. A raise leaves
  the loop with what had been printed.
\<close>

type_synonym solver_state = "int \<times> real \<times> policy \<times> policy option \<times> message list"

function while_loop ::
  "brentq_fn \<Rightarrow> interp_fn \<Rightarrow> IFP \<Rightarrow> real \<Rightarrow> int \<Rightarrow> bool \<Rightarrow> int \<Rightarrow> solver_state
     \<Rightarrow> message list \<times> (error + int \<times> policy option)" where
  "while_loop brentq interp ifp tol max_iter verbose print_skip (i, err, c, c_new, out) =
     (if i < max_iter \<and> err > tol then
        (case K brentq interp c ifp of
           Inl e \<Rightarrow> (out, Inl e)
         | Inr cn \<Rightarrow>
             (case np_max_abs_diff c cn of
                Inl e \<Rightarrow> (out, Inl e)
              | Inr err' \<Rightarrow>
                  if verbose \<and> print_skip = 0 then (out, Inl ZeroDivisionError)
                  else
                    while_loop brentq interp ifp tol max_iter verbose print_skip
                      (i + 1, err', cn, Some cn,
                       if verbose \<and> (i + 1) mod print_skip = 0
                       then out @ [Error_at_iteration (i + 1) err'] else out)))
      else (out, Inr (i, c_new)))"
  by pat_completeness auto
termination
  by (relation "measure (\<lambda>(brentq, interp, ifp, tol, max_iter, verbose, print_skip,
        i, err, c, c_new, out). nat (max_iter - i))") auto

declare while_loop.simps [simp del]

definition solve_model ::
  "brentq_fn \<Rightarrow> interp_fn \<Rightarrow> IFP \<Rightarrow> real \<Rightarrow> int \<Rightarrow> bool \<Rightarrow> int
     \<Rightarrow> message list \<times> (error + policy)" where
  "solve_model brentq interp ifp tol max_iter verbose print_skip =
     (let c_init = [a_grid ifp, a_grid ifp] in
      case while_loop brentq interp ifp tol max_iter verbose print_skip
             (0, tol + 1, c_init, None, []) of
        (out, Inl e) \<Rightarrow> (out, Inl e)
      | (out, Inr (i, c_new)) \<Rightarrow>
          let out1 = (if i = max_iter then out @ [Failed_to_converge] else out);
              out2 = (if verbose \<and> i < max_iter then out1 @ [Converged_in i] else out1)
          in (case c_new of
                None \<Rightarrow> (out2, Inl UnboundLocalError)
              | Some c \<Rightarrow> (out2, Inr c)))"

section \<open>Construction of the parameters\<close>

text \<open>
  numpy's global random generator is a state of some type \<open>'g\<close>: \<^verbatim>\<open>np.random.seed(n)\<close>
  replaces it by \<open>seed n\<close>, and one standard-normal draw is \<open>draw\<close>, which returns the
  number and the next state. Both are parameters of the model.
\<close>

fun randn :: "('g \<Rightarrow> real \<times> 'g) \<Rightarrow> nat \<Rightarrow> 'g \<Rightarrow> real list \<times> 'g" where
  "randn draw 0 g = ([], g)"
| "randn draw (Suc n) g =
     (case draw g of (x, g') \<Rightarrow>
        (case randn draw n g' of (xs, g'') \<Rightarrow> (x # xs, g'')))"

definition linspace :: "real \<Rightarrow> real \<Rightarrow> int \<Rightarrow> error + real list" where
  "linspace start stop num =
     (if num < 0 then Inl ValueError
      else if num = 1 then Inr [start]
      else Inr (map (\<lambda>i. start + real i * ((stop - start) / real (nat num - 1)))
                  [0 ..< nat num]))"

text \<open>
  \<^verbatim>\<open>IFP.__init__\<close>, from the generator state \<open>g\<close> it is called in to the parameters (or
  the error raised) and the state it leaves.
\<close>

definition IFP_init ::
  "(nat \<Rightarrow> 'g) \<Rightarrow> ('g \<Rightarrow> real \<times> 'g) \<Rightarrow> 'g \<Rightarrow> real \<Rightarrow> real \<Rightarrow> real list list \<Rightarrow> real list
     \<Rightarrow> real \<Rightarrow> int \<Rightarrow> real \<Rightarrow> int \<Rightarrow> (error + IFP) \<times> 'g" where
  "IFP_init seed draw g \<gamma>0 \<beta>0 P0 \<sigma>0 s0 shock_draw_size grid_max grid_size =
     (let g0 = seed 1234 in
      if shock_draw_size < 0 then (Inl ValueError, g0)
      else
        (case randn draw (nat shock_draw_size) g0 of (\<eta>s, g1) \<Rightarrow>
           (case randn draw (nat shock_draw_size) g1 of (\<zeta>s, g2) \<Rightarrow>
              (case linspace 0 grid_max grid_size of
                 Inl e \<Rightarrow> (Inl e, g2)
               | Inr grid \<Rightarrow>
                   (Inr \<lparr>\<gamma> = \<gamma>0, \<beta> = \<beta>0, P = P0, \<sigma>_vec = \<sigma>0, s = s0, a_grid = grid,
                         \<eta>_draws = \<eta>s, \<zeta>_draws = \<zeta>s\<rparr>, g2)))))"

section \<open>The interpolant\<close>

text \<open>
  Modelled from the spec: the routine \<^verbatim>\<open>interp\<close> of the package \<^verbatim>\<open>interpolation\<close>
  is imported by the notebook and its code is not part of the sources. Following the
  specification of the Interpolant, \<open>interp_lin grid column x\<close> is the piecewise-linear
  function through the nodes: between adjacent nodes it is the linear blend
  \<^verbatim>\<open>column[i] + (x - grid[i]) / (grid[i+1] - grid[i]) * (column[i+1] - column[i])\<close>, and
  below the first or above the last node it continues the nearest edge segment. The
  specification says nothing about a grid of fewer than two nodes or a column of another
  length; \<open>interp_lin\<close> is \<open>0\<close> there.
\<close>

fun segment :: "real list \<Rightarrow> real \<Rightarrow> nat" where
  "segment (g0 # g1 # g2 # gs) x = (if x < g1 then 0 else Suc (segment (g1 # g2 # gs) x))"
| "segment gs x = 0"

text \<open>
  Modelled from the spec: the Interpolant, which stands for the library routine
  \<^verbatim>\<open>interp\<close> that is not part of the sources. \<open>segment grid x\<close> above is the index of
  the segment used at \<open>x\<close>: the one that contains \<open>x\<close>, or the nearest edge segment.
\<close>

definition interp_lin :: interp_fn where
  "interp_lin grid col x =
     (if 2 \<le> length grid \<and> length col = length grid then
        (let i = segment grid x in
         col ! i + (x - grid ! i) / (grid ! (i + 1) - grid ! i) * (col ! (i + 1) - col ! i))
      else 0)"

section \<open>The residual as the specification states it\<close>

text \<open>
  The summand of the Monte Carlo expectation for next-period state \<open>z'\<close> and draws \<open>\<eta>\<close>,
  \<open>\<zeta>\<close>: \<open>R(z',\<zeta>) \<cdot> u'(c\<^bsub>z'\<^esub>(R(z',\<zeta>) \<cdot> (a - t) + Y(\<eta>))) \<cdot> P[z,z']\<close>, and its sum over a list of
  states and over both draw sequences.
\<close>

definition summand ::
  "interp_fn \<Rightarrow> real \<Rightarrow> policy \<Rightarrow> real \<Rightarrow> nat \<Rightarrow> IFP \<Rightarrow> nat \<Rightarrow> real \<Rightarrow> real \<Rightarrow> real" where
  "summand interp t c_vec a z ifp z' \<eta> \<zeta> =
     exp (\<sigma>_vec ifp ! z' * \<zeta>)
       * (interp (a_grid ifp) (c_vec ! z')
            (exp (\<sigma>_vec ifp ! z' * \<zeta>) * (a - t) + exp (s ifp * \<eta>))) powr (- \<gamma> ifp)
       * (P ifp ! z ! z')"

definition Ez_sum ::
  "interp_fn \<Rightarrow> real \<Rightarrow> policy \<Rightarrow> real \<Rightarrow> nat \<Rightarrow> IFP \<Rightarrow> nat list \<Rightarrow> real" where
  "Ez_sum interp t c_vec a z ifp Z =
     (\<Sum>z' \<leftarrow> Z. \<Sum>\<eta> \<leftarrow> \<eta>_draws ifp. \<Sum>\<zeta> \<leftarrow> \<zeta>_draws ifp.
        summand interp t c_vec a z ifp z' \<eta> \<zeta>)"

text \<open>
  The residual in the words of the specification: the income states are the indices of
  the transition matrix, and the sum is divided by the product of the numbers of \<open>\<eta>\<close> and
  of \<open>\<zeta>\<close> draws.
\<close>

definition EulerResidual_spec ::
  "interp_fn \<Rightarrow> real \<Rightarrow> policy \<Rightarrow> real \<Rightarrow> nat \<Rightarrow> IFP \<Rightarrow> real" where
  "EulerResidual_spec interp t c_vec a z ifp =
     t powr (- \<gamma> ifp)
       - max (\<beta> ifp * (Ez_sum interp t c_vec a z ifp [0 ..< length (P ifp)]
                          / (real (length (\<eta>_draws ifp)) * real (length (\<zeta>_draws ifp)))))
             (a powr (- \<gamma> ifp))"

text \<open>
  Two conditions under which \<^verbatim>\<open>euler_diff\<close> raises nothing: the arrays it indexes with
  the states \<open>0\<close>, \<open>1\<close> and \<open>z\<close> are large enough, and the interpolated consumption is
  positive at every next-period asset level the loops visit.
\<close>

definition two_states :: "policy \<Rightarrow> nat \<Rightarrow> IFP \<Rightarrow> bool" where
  "two_states c_vec z ifp =
     (2 \<le> length (\<sigma>_vec ifp) \<and> 2 \<le> length c_vec
      \<and> z < length (P ifp) \<and> 2 \<le> length (P ifp ! z))"

definition consumption_positive :: "interp_fn \<Rightarrow> real \<Rightarrow> policy \<Rightarrow> real \<Rightarrow> IFP \<Rightarrow> bool" where
  "consumption_positive interp t c_vec a ifp =
     list_all (\<lambda>z'. list_all (\<lambda>\<eta>. list_all (\<lambda>\<zeta>.
        0 < interp (a_grid ifp) (c_vec ! z')
              (exp (\<sigma>_vec ifp ! z' * \<zeta>) * (a - t) + exp (s ifp * \<eta>)))
       (\<zeta>_draws ifp)) (\<eta>_draws ifp)) [0, 1]"

subsection \<open>Example parameters\<close>

text \<open>
  The notebook's default \<open>\<gamma>\<close>, \<open>\<beta>\<close>, \<open>P\<close>, \<open>\<sigma>_vec\<close> and \<open>s\<close> on a grid of three points, with
  two draws of each shock that are both zero; a model with three income states; a model
  with two states used with a policy that decreases in assets; one with one \<open>\<eta>\<close> draw
  and two \<open>\<zeta>\<close> draws; and the parameters that \<^verbatim>\<open>grid_size = 0\<close> gives, with an empty
  grid.
\<close>

definition two_state_ifp :: IFP where
  "two_state_ifp =
     \<lparr>\<gamma> = 5 / 2, \<beta> = 24 / 25, P = [[4 / 5, 1 / 5], [7 / 10, 3 / 10]],
      \<sigma>_vec = [0, 1 / 2], s = 1 / 2, a_grid = [0, 5, 10],
      \<eta>_draws = [0, 0], \<zeta>_draws = [0, 0]\<rparr>"

definition three_state_ifp :: IFP where
  "three_state_ifp =
     \<lparr>\<gamma> = 2, \<beta> = 1 / 2,
      P = [[1 / 2, 1 / 4, 1 / 4], [1 / 2, 1 / 4, 1 / 4], [1 / 2, 1 / 4, 1 / 4]],
      \<sigma>_vec = [0, 0, 0], s = 0, a_grid = [0, 1, 2], \<eta>_draws = [0], \<zeta>_draws = [0]\<rparr>"

definition decreasing_policy_ifp :: IFP where
  "decreasing_policy_ifp =
     \<lparr>\<gamma> = 2, \<beta> = 1 / 2, P = [[1 / 2, 1 / 2], [1 / 2, 1 / 2]],
      \<sigma>_vec = [0, 0], s = 0, a_grid = [0, 1, 2], \<eta>_draws = [0], \<zeta>_draws = [0]\<rparr>"

definition unequal_draws_ifp :: IFP where
  "unequal_draws_ifp =
     \<lparr>\<gamma> = 2, \<beta> = 1 / 2, P = [[1 / 2, 1 / 2], [1 / 2, 1 / 2]],
      \<sigma>_vec = [0, 0], s = 0, a_grid = [0, 1, 2], \<eta>_draws = [0], \<zeta>_draws = [0, 0]\<rparr>"

definition empty_grid_ifp :: IFP where
  "empty_grid_ifp =
     \<lparr>\<gamma> = 5 / 2, \<beta> = 24 / 25, P = [[4 / 5, 1 / 5], [7 / 10, 3 / 10]],
      \<sigma>_vec = [0, 1 / 2], s = 1 / 2, a_grid = [],
      \<eta>_draws = [0, 0], \<zeta>_draws = [0, 0]\<rparr>"

subsection \<open>Vocabulary of the statements\<close>

text \<open>
  The interpolated consumption functions of the columns \<open>0\<close> and \<open>1\<close> are positive and
  non-decreasing on the positive asset levels.
\<close>

definition policy_increasing :: "interp_fn \<Rightarrow> policy \<Rightarrow> IFP \<Rightarrow> bool" where
  "policy_increasing interp c_vec ifp =
     (\<forall>z' < 2. \<forall>x y. 0 < x \<and> x \<le> y \<longrightarrow>
        0 < interp (a_grid ifp) (c_vec ! z') x
        \<and> interp (a_grid ifp) (c_vec ! z') x \<le> interp (a_grid ifp) (c_vec ! z') y)"

text \<open>
  The residual \<open>u'(t) - max(\<beta> \<cdot> S / d, u'(a))\<close> where \<open>S\<close> is the sum over the states \<open>0\<close>
  and \<open>1\<close> and \<open>d\<close> is the divisor.
\<close>

definition residual_over ::
  "interp_fn \<Rightarrow> real \<Rightarrow> policy \<Rightarrow> real \<Rightarrow> nat \<Rightarrow> IFP \<Rightarrow> real \<Rightarrow> real" where
  "residual_over interp t c_vec a z ifp d =
     t powr (- \<gamma> ifp)
       - max (\<beta> ifp * (Ez_sum interp t c_vec a z ifp [0, 1] / d)) (a powr (- \<gamma> ifp))"

text \<open>
  The policy after \<open>n\<close> applications of \<^verbatim>\<open>K\<close> to the initial guess "consume all assets",
  whose two columns are the asset grid.
\<close>

fun K_iter :: "brentq_fn \<Rightarrow> interp_fn \<Rightarrow> IFP \<Rightarrow> nat \<Rightarrow> error + policy" where
  "K_iter brentq interp ifp 0 = Inr [a_grid ifp, a_grid ifp]"
| "K_iter brentq interp ifp (Suc n) =
     (case K_iter brentq interp ifp n of Inl e \<Rightarrow> Inl e | Inr c \<Rightarrow> K brentq interp c ifp)"

text \<open>
  The error in the words of the specification: the largest \<open>\<bar>new[i,z] - old[i,z]\<bar>\<close> over
  all cells of the array.
\<close>

definition sup_norm :: "policy \<Rightarrow> policy \<Rightarrow> real" where
  "sup_norm c_old c_new =
     Max {\<bar>c_new ! z ! i - c_old ! z ! i\<bar> | z i. z < length c_old \<and> i < length (c_old ! z)}"

text \<open>
  The progress lines that the passes \<open>m + 1\<close> to \<open>k\<close> of the loop print, when the error
  after pass \<open>j\<close> is \<open>es j\<close>.
\<close>

definition progress :: "bool \<Rightarrow> int \<Rightarrow> (nat \<Rightarrow> real) \<Rightarrow> nat \<Rightarrow> nat \<Rightarrow> message list" where
  "progress verbose print_skip es m k =
     map (\<lambda>j. Error_at_iteration (int j) (es j))
       (filter (\<lambda>j. verbose \<and> int j mod print_skip = 0) [Suc m ..< Suc k])"

text \<open>
  A stand-in for the root finder in examples: it returns half the upper end of the
  bracket, whatever the target function.
\<close>

definition halving_brentq :: brentq_fn where
  "halving_brentq f lo hi = Inr (hi / 2)"

text \<open>
  A root finder that raises on every bracket, as \<^verbatim>\<open>brentq\<close> does on a bracket
  without a change of sign.
\<close>

definition raising_brentq :: brentq_fn where
  "raising_brentq f lo hi = Inl ValueError"


section \<open>Properties of the Euler residual\<close>

lemma for_loop_sum:
  "(\<And>x acc. x \<in> set xs \<Longrightarrow> body x acc = Inr (acc + f x))
     \<Longrightarrow> for_loop body xs acc = Inr (acc + sum_list (map f xs))"
  by (induction xs arbitrary: acc) (simp_all add: add.assoc)

lemma euler_term_value:
  assumes "two_states c_vec z ifp" "z' < 2"
    and "0 < interp (a_grid ifp) (c_vec ! z')
              (exp (\<sigma>_vec ifp ! z' * \<zeta>) * (a - t) + exp (s ifp * \<eta>))"
  shows "euler_term interp t c_vec a z ifp z' \<eta> \<zeta>
           = Inr (summand interp t c_vec a z ifp z' \<eta> \<zeta>)"
  using assms
  by (simp add: euler_term_def two_states_def R_def getitem_def Y_def column_def u_prime_def
      getitem2_def summand_def)

text \<open>The three loops compute the triple sum over the states \<open>0\<close> and \<open>1\<close>.\<close>

lemma Ez_loop_value:
  assumes "two_states c_vec z ifp" "consumption_positive interp t c_vec a ifp"
  shows "Ez_loop interp t c_vec a z ifp = Inr (Ez_sum interp t c_vec a z ifp [0, 1])"
proof -
  have pos: "0 < interp (a_grid ifp) (c_vec ! z')
              (exp (\<sigma>_vec ifp ! z' * \<zeta>) * (a - t) + exp (s ifp * \<eta>))"
    if "z' < 2" "\<eta> \<in> set (\<eta>_draws ifp)" "\<zeta> \<in> set (\<zeta>_draws ifp)" for z' \<eta> \<zeta>
  proof -
    have "z' = 0 \<or> z' = 1" using that(1) by auto
    then show ?thesis
      using assms(2) that(2,3) by (auto simp: consumption_positive_def list_all_iff)
  qed
  have inner: "for_loop (\<lambda>\<zeta> Ez.
           (case euler_term interp t c_vec a z ifp z' \<eta> \<zeta> of
              Inl e \<Rightarrow> Inl e
            | Inr v \<Rightarrow> Inr (Ez + v))) (\<zeta>_draws ifp) acc
        = Inr (acc + (\<Sum>\<zeta> \<leftarrow> \<zeta>_draws ifp. summand interp t c_vec a z ifp z' \<eta> \<zeta>))"
    if "z' < 2" "\<eta> \<in> set (\<eta>_draws ifp)" for z' \<eta> acc
    by (rule for_loop_sum) (simp add: euler_term_value assms(1) that pos)
  have middle: "for_loop (\<lambda>\<eta> Ez.
         for_loop (\<lambda>\<zeta> Ez.
           (case euler_term interp t c_vec a z ifp z' \<eta> \<zeta> of
              Inl e \<Rightarrow> Inl e
            | Inr v \<Rightarrow> Inr (Ez + v)))
         (\<zeta>_draws ifp) Ez) (\<eta>_draws ifp) acc
        = Inr (acc + (\<Sum>\<eta> \<leftarrow> \<eta>_draws ifp. \<Sum>\<zeta> \<leftarrow> \<zeta>_draws ifp.
                        summand interp t c_vec a z ifp z' \<eta> \<zeta>))"
    if "z' < 2" for z' acc
    by (rule for_loop_sum) (simp add: inner that)
  have "for_loop (\<lambda>z_hat Ez.
       for_loop (\<lambda>\<eta> Ez.
         for_loop (\<lambda>\<zeta> Ez.
           (case euler_term interp t c_vec a z ifp z_hat \<eta> \<zeta> of
              Inl e \<Rightarrow> Inl e
            | Inr v \<Rightarrow> Inr (Ez + v)))
         (\<zeta>_draws ifp) Ez)
       (\<eta>_draws ifp) Ez)
     [0, 1] 0
     = Inr (0 + (\<Sum>z' \<leftarrow> [0, 1]. \<Sum>\<eta> \<leftarrow> \<eta>_draws ifp. \<Sum>\<zeta> \<leftarrow> \<zeta>_draws ifp.
                  summand interp t c_vec a z ifp z' \<eta> \<zeta>))"
    by (rule for_loop_sum) (auto simp: middle)
  then show ?thesis
    by (simp add: Ez_loop_def Ez_sum_def)
qed

lemma euler_diff_value:
  assumes "two_states c_vec z ifp" "consumption_positive interp t c_vec a ifp"
    and "0 < t" "0 < a" "\<eta>_draws ifp \<noteq> []"
  shows "euler_diff interp t c_vec a z ifp =
           Inr (t powr (- \<gamma> ifp)
                - max (\<beta> ifp * (Ez_sum interp t c_vec a z ifp [0, 1]
                         / (real (length (\<eta>_draws ifp)) * real (length (\<eta>_draws ifp)))))
                      (a powr (- \<gamma> ifp)))"
  using assms(3-5)
  by (simp add: euler_diff_def Ez_loop_value [OF assms(1,2)] u_prime_def Let_def)

text \<open>
  At zero assets the model gives the residual no real value, whatever the candidate
  consumption: it contains \<open>u'(0)\<close>, which is \<^verbatim>\<open>inf\<close> in the code.
\<close>

lemma euler_diff_zero_assets: "euler_diff interp t c_vec 0 z ifp \<noteq> Inr v"
  by (simp add: euler_diff_def u_prime_def Let_def split: sum.splits)

lemma upt_two: "[0 ..< 2] = [0, Suc 0]"
  by (simp add: upt_rec)

lemma interp_lin_3_at_1: "interp_lin [0, 1, 2] [0, 1, 2] 1 = 1"
  by (simp add: interp_lin_def)

lemma two_state_ifp_two_states: "two_states [[0, 5, 10], [0, 5, 10]] 1 two_state_ifp"
  by (simp add: two_states_def two_state_ifp_def)

lemma two_state_ifp_positive:
  "consumption_positive interp_lin 1 [[0, 5, 10], [0, 5, 10]] 2 two_state_ifp"
  by (simp add: consumption_positive_def two_state_ifp_def interp_lin_def)

text \<open>
  C1 (amended). For a model with exactly two income states, draw sequences that are not
  empty and equally long, a candidate \<open>t > 0\<close> and assets \<open>a > 0\<close>, and interpolated
  consumption positive wherever marginal utility is taken, \<^verbatim>\<open>euler_diff\<close> returns
  \<open>u'(t) - max(\<beta> \<cdot> E, u'(a))\<close> with \<open>E\<close> the average over all income states and all pairs of
  draws, as the specification writes it.
\<close>

theorem euler_diff_two_states_is_spec:
  assumes "0 < t" "0 < a"
    and "length (P ifp) = 2" "two_states c_vec z ifp"
    and "\<eta>_draws ifp \<noteq> []" "length (\<eta>_draws ifp) = length (\<zeta>_draws ifp)"
    and "consumption_positive interp t c_vec a ifp"
  shows "euler_diff interp t c_vec a z ifp = Inr (EulerResidual_spec interp t c_vec a z ifp)"
  using assms(3,6)
  by (simp add: euler_diff_value [OF assms(4,7,1,2,5)] EulerResidual_spec_def upt_two)

theorem euler_diff_two_states_is_spec_witness:
  "length (P two_state_ifp) = 2
   \<and> length (\<eta>_draws two_state_ifp) = length (\<zeta>_draws two_state_ifp)
   \<and> consumption_positive interp_lin 1 [[0, 5, 10], [0, 5, 10]] 2 two_state_ifp
   \<and> euler_diff interp_lin 1 [[0, 5, 10], [0, 5, 10]] 2 1 two_state_ifp
       = Inr (EulerResidual_spec interp_lin 1 [[0, 5, 10], [0, 5, 10]] 2 1 two_state_ifp)"
  using euler_diff_two_states_is_spec [of 1 2 two_state_ifp "[[0, 5, 10], [0, 5, 10]]" 1 interp_lin]
    two_state_ifp_two_states two_state_ifp_positive
  by (simp add: two_state_ifp_def)

text \<open>
  C1 as stated fails for a model with three income states: at \<open>t = a = 2\<close> the code returns
  \<open>-1/8\<close>, the formula of the specification gives \<open>-1/4\<close>.
\<close>

theorem euler_diff_three_states_counterexample:
  "euler_diff interp_lin 2 [[0, 1, 2], [0, 1, 2], [0, 1, 2]] 2 0 three_state_ifp
     = Inr (- (1 / 8))
   \<and> EulerResidual_spec interp_lin 2 [[0, 1, 2], [0, 1, 2], [0, 1, 2]] 2 0 three_state_ifp
     = - (1 / 4)"
proof
  show "euler_diff interp_lin 2 [[0, 1, 2], [0, 1, 2], [0, 1, 2]] 2 0 three_state_ifp
          = Inr (- (1 / 8))"
    by (simp add: Let_def euler_diff_def Ez_loop_def euler_term_def R_def Y_def getitem_def
        getitem2_def column_def u_prime_def three_state_ifp_def interp_lin_3_at_1 powr_minus)
  show "EulerResidual_spec interp_lin 2 [[0, 1, 2], [0, 1, 2], [0, 1, 2]] 2 0 three_state_ifp
          = - (1 / 4)"
    by (simp add: EulerResidual_spec_def Ez_sum_def summand_def three_state_ifp_def
        interp_lin_3_at_1 powr_minus upt_rec)
qed

lemma Ez_sum_append:
  "Ez_sum interp t c_vec a z ifp (Z1 @ Z2)
     = Ez_sum interp t c_vec a z ifp Z1 + Ez_sum interp t c_vec a z ifp Z2"
  by (simp add: Ez_sum_def)

lemma upt_split_two: "2 \<le> n \<Longrightarrow> [0 ..< n] = [0, 1] @ [2 ..< n]"
  by (metis One_nat_def Suc_1 le0 upt_add_eq_append upt_two le_iff_add plus_nat.add_0)

lemma three_state_two_states: "two_states [[0, 1, 2], [0, 1, 2], [0, 1, 2]] 0 three_state_ifp"
  by (simp add: two_states_def three_state_ifp_def)

lemma three_state_positive:
  "consumption_positive interp_lin 2 [[0, 1, 2], [0, 1, 2], [0, 1, 2]] 2 three_state_ifp"
  by (simp add: consumption_positive_def three_state_ifp_def interp_lin_3_at_1)

text \<open>
  C9. The loops of \<^verbatim>\<open>euler_diff\<close> add up the summands of the states \<open>0\<close> and \<open>1\<close> only,
  whatever the size of the transition matrix, and raise nothing for it. With exactly two
  income states this is the sum over all states; with more, it is the sum over all states
  less the contribution of the states of index \<open>2\<close> and above.
\<close>

theorem Ez_loop_sums_states_0_1:
  assumes "two_states c_vec z ifp" "consumption_positive interp t c_vec a ifp"
  shows "Ez_loop interp t c_vec a z ifp = Inr (Ez_sum interp t c_vec a z ifp [0, 1])
         \<and> (length (P ifp) = 2 \<longrightarrow>
               Ez_sum interp t c_vec a z ifp [0, 1]
                 = Ez_sum interp t c_vec a z ifp [0 ..< length (P ifp)])
         \<and> (2 < length (P ifp) \<longrightarrow>
               Ez_sum interp t c_vec a z ifp [0, 1]
                 = Ez_sum interp t c_vec a z ifp [0 ..< length (P ifp)]
                   - Ez_sum interp t c_vec a z ifp [2 ..< length (P ifp)])"
proof (intro conjI impI)
  show "Ez_loop interp t c_vec a z ifp = Inr (Ez_sum interp t c_vec a z ifp [0, 1])"
    by (rule Ez_loop_value [OF assms])
next
  assume "length (P ifp) = 2"
  then show "Ez_sum interp t c_vec a z ifp [0, 1]
               = Ez_sum interp t c_vec a z ifp [0 ..< length (P ifp)]"
    by (simp add: upt_two)
next
  assume "2 < length (P ifp)"
  then have "[0 ..< length (P ifp)] = [0, 1] @ [2 ..< length (P ifp)]"
    by (intro upt_split_two) simp
  then show "Ez_sum interp t c_vec a z ifp [0, 1]
               = Ez_sum interp t c_vec a z ifp [0 ..< length (P ifp)]
                 - Ez_sum interp t c_vec a z ifp [2 ..< length (P ifp)]"
    using Ez_sum_append [of interp t c_vec a z ifp "[0, 1]" "[2 ..< length (P ifp)]"] by simp
qed

theorem Ez_loop_sums_states_0_1_witness:
  "2 < length (P three_state_ifp)
   \<and> Ez_loop interp_lin 2 [[0, 1, 2], [0, 1, 2], [0, 1, 2]] 2 0 three_state_ifp
       = Inr (Ez_sum interp_lin 2 [[0, 1, 2], [0, 1, 2], [0, 1, 2]] 2 0 three_state_ifp [0, 1])
   \<and> Ez_sum interp_lin 2 [[0, 1, 2], [0, 1, 2], [0, 1, 2]] 2 0 three_state_ifp [0, 1]
       = Ez_sum interp_lin 2 [[0, 1, 2], [0, 1, 2], [0, 1, 2]] 2 0 three_state_ifp
           [0 ..< length (P three_state_ifp)]
         - Ez_sum interp_lin 2 [[0, 1, 2], [0, 1, 2], [0, 1, 2]] 2 0 three_state_ifp
             [2 ..< length (P three_state_ifp)]
   \<and> length (P two_state_ifp) = 2
   \<and> Ez_sum interp_lin 1 [[0, 5, 10], [0, 5, 10]] 2 1 two_state_ifp [0, 1]
       = Ez_sum interp_lin 1 [[0, 5, 10], [0, 5, 10]] 2 1 two_state_ifp
           [0 ..< length (P two_state_ifp)]"
proof -
  have gt: "2 < length (P three_state_ifp)"
    by (simp add: three_state_ifp_def)
  have eq: "length (P two_state_ifp) = 2"
    by (simp add: two_state_ifp_def)
  show ?thesis
    using Ez_loop_sums_states_0_1 [OF three_state_two_states three_state_positive]
      Ez_loop_sums_states_0_1 [OF two_state_ifp_two_states two_state_ifp_positive] gt eq
    by blast
qed

section \<open>Properties of the constructor\<close>

lemma randn_length: "length (fst (randn draw n g)) = n"
proof (induction n arbitrary: g)
  case 0
  show ?case by simp
next
  case (Suc n)
  obtain x g' where d: "draw g = (x, g')" by (cases "draw g")
  obtain xs g'' where r: "randn draw n g' = (xs, g'')" by (cases "randn draw n g'")
  have "length xs = n" using Suc [of g'] r by simp
  then show ?case by (simp add: d r)
qed

lemma IFP_init_draws:
  assumes "fst (IFP_init seed draw g \<gamma>0 \<beta>0 P0 \<sigma>0 s0 shock_draw_size grid_max grid_size) = Inr ifp"
  shows "length (\<eta>_draws ifp) = nat shock_draw_size
         \<and> length (\<zeta>_draws ifp) = nat shock_draw_size"
proof -
  obtain \<eta>s g1 where e: "randn draw (nat shock_draw_size) (seed 1234) = (\<eta>s, g1)"
    by (cases "randn draw (nat shock_draw_size) (seed 1234)")
  obtain \<zeta>s g2 where z: "randn draw (nat shock_draw_size) g1 = (\<zeta>s, g2)"
    by (cases "randn draw (nat shock_draw_size) g1")
  have "length \<eta>s = nat shock_draw_size" "length \<zeta>s = nat shock_draw_size"
    using randn_length [of draw "nat shock_draw_size" "seed 1234"]
      randn_length [of draw "nat shock_draw_size" g1] e z by simp_all
  then show ?thesis
    using assms e z
    by (auto simp: IFP_init_def Let_def split: if_splits sum.splits)
qed

lemma linspace_3: "linspace 0 10 3 = Inr [0, 5, 10]"
  by (simp add: linspace_def upt_rec)

lemma randn_zero_2: "randn (\<lambda>g::nat. (0, Suc g)) 2 g = ([0, 0], Suc (Suc g))"
  by (simp add: numeral_2_eq_2)

lemma IFP_init_example:
  "fst (IFP_init (\<lambda>n. n) (\<lambda>g::nat. (0, Suc g)) 7 (5 / 2) (24 / 25)
          [[4 / 5, 1 / 5], [7 / 10, 3 / 10]] [0, 1 / 2] (1 / 2) 2 10 3) = Inr two_state_ifp"
  by (simp add: IFP_init_def Let_def linspace_3 randn_zero_2 two_state_ifp_def)

text \<open>
  With one \<open>\<eta>\<close> draw and two \<open>\<zeta>\<close> draws the code divides the sum by \<open>1\<close>, not by \<open>2\<close>.
\<close>

lemma euler_diff_unequal_draws:
  "euler_diff interp_lin 2 [[0, 1, 2], [0, 1, 2]] 2 0 unequal_draws_ifp = Inr (- (3 / 4))
   \<and> residual_over interp_lin 2 [[0, 1, 2], [0, 1, 2]] 2 0 unequal_draws_ifp
        (real (length (\<eta>_draws unequal_draws_ifp)) * real (length (\<zeta>_draws unequal_draws_ifp)))
      = - (1 / 4)"
proof
  show "euler_diff interp_lin 2 [[0, 1, 2], [0, 1, 2]] 2 0 unequal_draws_ifp = Inr (- (3 / 4))"
    by (simp add: Let_def euler_diff_def Ez_loop_def euler_term_def R_def Y_def getitem_def
        getitem2_def column_def u_prime_def unequal_draws_ifp_def interp_lin_3_at_1 powr_minus)
  show "residual_over interp_lin 2 [[0, 1, 2], [0, 1, 2]] 2 0 unequal_draws_ifp
          (real (length (\<eta>_draws unequal_draws_ifp)) * real (length (\<zeta>_draws unequal_draws_ifp)))
        = - (1 / 4)"
    by (simp add: residual_over_def Ez_sum_def summand_def unequal_draws_ifp_def
        interp_lin_3_at_1 powr_minus)
qed

text \<open>
  C10. \<^verbatim>\<open>euler_diff\<close> divides the sum by the square of the number of \<open>\<eta>\<close> draws, whatever
  the number of \<open>\<zeta>\<close> draws. In parameters that \<^verbatim>\<open>IFP.__init__\<close> has produced both
  sequences have \<^verbatim>\<open>shock_draw_size\<close> elements, and the divisor equals the product of the
  numbers of \<open>\<eta>\<close> and of \<open>\<zeta>\<close> draws.
\<close>

theorem euler_diff_divisor:
  assumes "two_states c_vec z ifp" "consumption_positive interp t c_vec a ifp"
    and "0 < t" "0 < a" "\<eta>_draws ifp \<noteq> []"
  shows "euler_diff interp t c_vec a z ifp
           = Inr (residual_over interp t c_vec a z ifp
                    (real (length (\<eta>_draws ifp)) * real (length (\<eta>_draws ifp))))
         \<and> (fst (IFP_init seed draw g \<gamma>0 \<beta>0 P0 \<sigma>0 s0 shock_draw_size grid_max grid_size)
               = Inr ifp
              \<longrightarrow> length (\<eta>_draws ifp) = nat shock_draw_size
                \<and> length (\<zeta>_draws ifp) = nat shock_draw_size
                \<and> euler_diff interp t c_vec a z ifp
                    = Inr (residual_over interp t c_vec a z ifp
                             (real (length (\<eta>_draws ifp)) * real (length (\<zeta>_draws ifp)))))"
proof -
  have v: "euler_diff interp t c_vec a z ifp
           = Inr (residual_over interp t c_vec a z ifp
                    (real (length (\<eta>_draws ifp)) * real (length (\<eta>_draws ifp))))"
    unfolding residual_over_def by (rule euler_diff_value [OF assms])
  show ?thesis
    using v IFP_init_draws [of seed draw g \<gamma>0 \<beta>0 P0 \<sigma>0 s0 shock_draw_size grid_max grid_size ifp]
    by auto
qed

theorem euler_diff_divisor_witness:
  "fst (IFP_init (\<lambda>n. n) (\<lambda>g::nat. (0, Suc g)) 7 (5 / 2) (24 / 25)
          [[4 / 5, 1 / 5], [7 / 10, 3 / 10]] [0, 1 / 2] (1 / 2) 2 10 3) = Inr two_state_ifp
   \<and> length (\<eta>_draws two_state_ifp) = 2 \<and> length (\<zeta>_draws two_state_ifp) = 2
   \<and> euler_diff interp_lin 1 [[0, 5, 10], [0, 5, 10]] 2 1 two_state_ifp
       = Inr (residual_over interp_lin 1 [[0, 5, 10], [0, 5, 10]] 2 1 two_state_ifp (2 * 2))"
  using euler_diff_divisor [OF two_state_ifp_two_states two_state_ifp_positive,
      of "\<lambda>n. n" "\<lambda>g::nat. (0, Suc g)" 7 "5 / 2" "24 / 25" "[[4 / 5, 1 / 5], [7 / 10, 3 / 10]]"
        "[0, 1 / 2]" "1 / 2" 2 10 3]
    IFP_init_example
  by (simp add: two_state_ifp_def)

section \<open>Monotonicity of the residual\<close>

lemma increasing_positive:
  assumes "policy_increasing interp c_vec ifp" "t \<le> a"
  shows "consumption_positive interp t c_vec a ifp"
proof -
  have x: "0 < exp (\<sigma>_vec ifp ! z' * \<zeta>) * (a - t) + exp (s ifp * \<eta>)" for z' \<eta> \<zeta>
    using assms(2) by (simp add: add_nonneg_pos)
  have "0 < interp (a_grid ifp) (c_vec ! z')
              (exp (\<sigma>_vec ifp ! z' * \<zeta>) * (a - t) + exp (s ifp * \<eta>))"
    if "z' < 2" for z' \<eta> \<zeta>
    using assms(1) that x [of z' \<zeta> \<eta>] unfolding policy_increasing_def by blast
  then show ?thesis
    by (simp add: consumption_positive_def list_all_iff)
qed

lemma summand_mono:
  assumes "policy_increasing interp c_vec ifp" "0 < \<gamma> ifp" "z' < 2" "0 \<le> P ifp ! z ! z'"
    and "t1 \<le> t2" "t2 \<le> a"
  shows "summand interp t1 c_vec a z ifp z' \<eta> \<zeta> \<le> summand interp t2 c_vec a z ifp z' \<eta> \<zeta>"
proof -
  let ?x1 = "exp (\<sigma>_vec ifp ! z' * \<zeta>) * (a - t1) + exp (s ifp * \<eta>)"
  let ?x2 = "exp (\<sigma>_vec ifp ! z' * \<zeta>) * (a - t2) + exp (s ifp * \<eta>)"
  let ?c = "interp (a_grid ifp) (c_vec ! z')"
  have x2: "0 < ?x2" using assms(6) by (simp add: add_nonneg_pos)
  have le: "?x2 \<le> ?x1" using assms(5) by (simp add: mult_left_mono)
  have c: "0 < ?c ?x2" "?c ?x2 \<le> ?c ?x1"
    using assms(1,3) x2 le unfolding policy_increasing_def by blast+
  have "?c ?x1 powr (- \<gamma> ifp) \<le> ?c ?x2 powr (- \<gamma> ifp)"
    using c assms(2) by (intro powr_mono2') auto
  then have "exp (\<sigma>_vec ifp ! z' * \<zeta>) * ?c ?x1 powr (- \<gamma> ifp)
               \<le> exp (\<sigma>_vec ifp ! z' * \<zeta>) * ?c ?x2 powr (- \<gamma> ifp)"
    by (simp add: mult_left_mono)
  then show ?thesis
    unfolding summand_def using assms(4) by (rule mult_right_mono)
qed

lemma Ez_sum_mono:
  assumes "policy_increasing interp c_vec ifp" "0 < \<gamma> ifp"
    and "0 \<le> P ifp ! z ! 0" "0 \<le> P ifp ! z ! 1" "t1 \<le> t2" "t2 \<le> a"
  shows "Ez_sum interp t1 c_vec a z ifp [0, 1] \<le> Ez_sum interp t2 c_vec a z ifp [0, 1]"
proof -
  have "summand interp t1 c_vec a z ifp z' \<eta> \<zeta> \<le> summand interp t2 c_vec a z ifp z' \<eta> \<zeta>"
    if "z' \<in> set [0, 1]" for z' \<eta> \<zeta>
  proof -
    have "z' < 2 \<and> 0 \<le> P ifp ! z ! z'" using that assms(3,4) by auto
    then show ?thesis using summand_mono assms(1,2,5,6) by blast
  qed
  then show ?thesis
    unfolding Ez_sum_def by (intro sum_list_mono) blast
qed

lemma interp_lin_identity: "interp_lin [0, 5, 10] [0, 5, 10] x = x"
  by (simp add: interp_lin_def)

lemma two_state_ifp_increasing:
  "policy_increasing interp_lin [[0, 5, 10], [0, 5, 10]] two_state_ifp"
proof -
  have "[[0, 5, 10], [0, 5, 10]] ! z' = [0, 5, 10 :: real]" if "z' < 2" for z'
    using that by (cases z') (simp_all add: less_Suc_eq numeral_2_eq_2)
  then show ?thesis
    by (simp add: policy_increasing_def two_state_ifp_def interp_lin_identity)
qed

text \<open>
  C4 (amended). Let \<open>\<gamma> > 0\<close> and \<open>0 < \<beta> < 1\<close>, the transition probabilities out of \<open>z\<close> be
  non-negative, and the interpolated previous policy be positive and non-decreasing on
  the positive asset levels. Then the residual is strictly decreasing in the candidate
  consumption on \<open>(0, a]\<close>: for \<open>0 < t1 < t2 \<le> a\<close> both residuals are defined and the one
  at \<open>t2\<close> is the smaller.
\<close>

theorem euler_diff_strictly_decreasing:
  assumes "0 < \<gamma> ifp" "0 < \<beta> ifp" "\<beta> ifp < 1"
    and "two_states c_vec z ifp" "\<eta>_draws ifp \<noteq> []"
    and "0 \<le> P ifp ! z ! 0" "0 \<le> P ifp ! z ! 1"
    and "policy_increasing interp c_vec ifp"
    and "0 < t1" "t1 < t2" "t2 \<le> a"
  shows "\<exists>v1 v2. euler_diff interp t1 c_vec a z ifp = Inr v1
                 \<and> euler_diff interp t2 c_vec a z ifp = Inr v2 \<and> v2 < v1"
proof -
  let ?n = "real (length (\<eta>_draws ifp)) * real (length (\<eta>_draws ifp))"
  let ?E1 = "Ez_sum interp t1 c_vec a z ifp [0, 1]"
  let ?E2 = "Ez_sum interp t2 c_vec a z ifp [0, 1]"
  have a: "0 < a" and t2: "0 < t2" and t1a: "t1 \<le> a" using assms(9-11) by auto
  have v1: "euler_diff interp t1 c_vec a z ifp
              = Inr (t1 powr (- \<gamma> ifp) - max (\<beta> ifp * (?E1 / ?n)) (a powr (- \<gamma> ifp)))"
    by (rule euler_diff_value
          [OF assms(4) increasing_positive [OF assms(8) t1a] assms(9) a assms(5)])
  have v2: "euler_diff interp t2 c_vec a z ifp
              = Inr (t2 powr (- \<gamma> ifp) - max (\<beta> ifp * (?E2 / ?n)) (a powr (- \<gamma> ifp)))"
    by (rule euler_diff_value
          [OF assms(4) increasing_positive [OF assms(8) assms(11)] t2 a assms(5)])
  have "?E1 \<le> ?E2"
    using Ez_sum_mono [OF assms(8,1,6,7) _ assms(11)] assms(10) by simp
  moreover have "0 < ?n" using assms(5) by simp
  ultimately have "?E1 / ?n \<le> ?E2 / ?n"
    by (simp add: divide_right_mono)
  then have "\<beta> ifp * (?E1 / ?n) \<le> \<beta> ifp * (?E2 / ?n)"
    using assms(2) by (intro mult_left_mono) auto
  then have m: "max (\<beta> ifp * (?E1 / ?n)) (a powr (- \<gamma> ifp))
                  \<le> max (\<beta> ifp * (?E2 / ?n)) (a powr (- \<gamma> ifp))"
    by (simp add: max.coboundedI1 max.coboundedI2)
  have "t2 powr (- \<gamma> ifp) < t1 powr (- \<gamma> ifp)"
    using assms(1,9,10) by (intro powr_less_mono2_neg) auto
  with m show ?thesis
    unfolding v1 v2 by auto
qed

theorem euler_diff_strictly_decreasing_witness:
  "policy_increasing interp_lin [[0, 5, 10], [0, 5, 10]] two_state_ifp
   \<and> (\<exists>v1 v2. euler_diff interp_lin 1 [[0, 5, 10], [0, 5, 10]] 2 1 two_state_ifp = Inr v1
             \<and> euler_diff interp_lin 2 [[0, 5, 10], [0, 5, 10]] 2 1 two_state_ifp = Inr v2
             \<and> v2 < v1)"
  using euler_diff_strictly_decreasing
           [OF _ _ _ two_state_ifp_two_states _ _ _ two_state_ifp_increasing, of 1 2 2]
    two_state_ifp_increasing
  by (simp add: two_state_ifp_def)

text \<open>
  C4 as stated fails for a previous policy that decreases in assets: with \<open>\<gamma> = 2\<close>,
  \<open>\<beta> = 1/2\<close> and assets \<open>a = 2\<close> the residual is \<open>-49\<close> at \<open>t = 1\<close> and \<open>-1/4\<close> at \<open>t = 2\<close>.
\<close>

theorem euler_diff_not_decreasing_counterexample:
  "euler_diff interp_lin 1 [[0, 1, 1 / 10], [0, 1, 1 / 10]] 2 0 decreasing_policy_ifp
     = Inr (- 49)
   \<and> euler_diff interp_lin 2 [[0, 1, 1 / 10], [0, 1, 1 / 10]] 2 0 decreasing_policy_ifp
     = Inr (- (1 / 4))"
  by (simp add: Let_def euler_diff_def Ez_loop_def euler_term_def R_def Y_def getitem_def
        getitem2_def column_def u_prime_def decreasing_policy_ifp_def interp_lin_def powr_minus
        power2_eq_square)

section \<open>Properties of the interpolant\<close>

lemma segment_inside:
  "sorted_wrt (<) grid \<Longrightarrow> Suc i < length grid \<Longrightarrow> grid ! i \<le> x \<Longrightarrow> x < grid ! Suc i
     \<Longrightarrow> segment grid x = i"
proof (induction grid x arbitrary: i rule: segment.induct)
  case (1 g0 g1 g2 gs x)
  show ?case
  proof (cases i)
    case 0
    with "1.prems" show ?thesis by simp
  next
    case (Suc j)
    have "j < length (g1 # g2 # gs)" using "1.prems"(2) Suc by simp
    then have "(g1 # g2 # gs) ! j \<in> set (g1 # g2 # gs)" by (rule nth_mem)
    moreover have "\<forall>y \<in> set (g1 # g2 # gs). g1 \<le> y"
      using "1.prems"(1) by (auto simp: less_imp_le)
    ultimately have "g1 \<le> (g1 # g2 # gs) ! j" by blast
    then have nl: "\<not> x < g1" using "1.prems"(3) Suc by simp
    have "segment (g1 # g2 # gs) x = j"
      using "1.IH" [OF nl, of j] "1.prems" Suc by simp
    with nl show ?thesis using Suc by simp
  qed
qed simp_all

lemma segment_last:
  "sorted_wrt (<) grid \<Longrightarrow> 2 \<le> length grid \<Longrightarrow> last grid \<le> x
     \<Longrightarrow> segment grid x = length grid - 2"
proof (induction grid x rule: segment.induct)
  case (1 g0 g1 g2 gs x)
  have "g1 \<le> last (g1 # g2 # gs)"
    using "1.prems"(1) by (auto simp: less_imp_le)
  then have nl: "\<not> x < g1" using "1.prems"(3) by simp
  have "segment (g1 # g2 # gs) x = length (g1 # g2 # gs) - 2"
    using "1.IH" [OF nl] "1.prems" by simp
  with nl show ?case by simp
qed simp_all

text \<open>
  C5. On a strictly increasing grid of at least two nodes, the interpolant of a column
  evaluated at the grid node \<open>grid[i]\<close> is the stored value \<open>column[i]\<close>, for every index
  \<open>i\<close> of the grid. (Arithmetic is that of the real numbers.)
\<close>

theorem interp_lin_exact_at_nodes:
  assumes "sorted_wrt (<) grid" "2 \<le> length grid" "length col = length grid"
    and "i < length grid"
  shows "interp_lin grid col (grid ! i) = col ! i"
proof (cases "Suc i < length grid")
  case True
  have "grid ! i < grid ! Suc i"
    using assms(1) True by (simp add: sorted_wrt_nth_less)
  then have "segment grid (grid ! i) = i"
    using segment_inside [OF assms(1) True, of "grid ! i"] by simp
  then show ?thesis
    using assms(2,3) by (simp add: interp_lin_def Let_def)
next
  case False
  then have i: "i = length grid - 1" using assms(4) by simp
  have ne: "grid \<noteq> []" using assms(2) by auto
  have l: "grid ! i = last grid" using i ne by (simp add: last_conv_nth)
  have sg: "segment grid (grid ! i) = length grid - 2"
    using segment_last [OF assms(1,2), of "grid ! i"] l by simp
  have suc: "Suc (length grid - 2) = i" using i assms(2) by simp
  have "grid ! (length grid - 2) < grid ! i"
    using sorted_wrt_nth_less [OF assms(1), of "length grid - 2" i] i assms(2) by auto
  then have d: "grid ! i - grid ! (length grid - 2) \<noteq> 0" by simp
  show ?thesis
    using assms(2,3) d by (simp add: interp_lin_def Let_def sg suc)
qed

theorem interp_lin_exact_at_nodes_witness:
  "interp_lin [0, 5, 10] [1, 7, 3] ([0, 5, 10] ! 0) = [1, 7, 3] ! 0
   \<and> interp_lin [0, 5, 10] [1, 7, 3] ([0, 5, 10] ! 1) = [1, 7, 3] ! 1
   \<and> interp_lin [0, 5, 10] [1, 7, 3] ([0, 5, 10] ! 2) = [1, 7, 3] ! 2"
  using interp_lin_exact_at_nodes [of "[0, 5, 10]" "[1, 7, 3]" 0]
    interp_lin_exact_at_nodes [of "[0, 5, 10]" "[1, 7, 3]" 1]
    interp_lin_exact_at_nodes [of "[0, 5, 10]" "[1, 7, 3]" 2]
  by simp

section \<open>Construction validates nothing\<close>

text \<open>
  C7 (amended). \<^verbatim>\<open>IFP.__init__\<close> checks neither the transition matrix nor the discount
  factor nor the grid: whenever \<^verbatim>\<open>shock_draw_size\<close> and \<^verbatim>\<open>grid_size\<close> are not negative
  it returns parameters that hold the given \<open>\<gamma>\<close>, \<open>\<beta>\<close>, \<open>P\<close>, \<open>\<sigma>_vec\<close> and \<open>s\<close> unchanged and
  the grid \<^verbatim>\<open>np.linspace(0, grid_max, grid_size)\<close> of \<^verbatim>\<open>grid_size\<close> points.
\<close>

theorem IFP_init_accepts_unvalidated:
  assumes "0 \<le> shock_draw_size" "0 \<le> grid_size"
  shows "\<exists>ifp. fst (IFP_init seed draw g \<gamma>0 \<beta>0 P0 \<sigma>0 s0 shock_draw_size grid_max grid_size)
                 = Inr ifp
          \<and> \<gamma> ifp = \<gamma>0 \<and> \<beta> ifp = \<beta>0 \<and> P ifp = P0 \<and> \<sigma>_vec ifp = \<sigma>0 \<and> s ifp = s0
          \<and> linspace 0 grid_max grid_size = Inr (a_grid ifp)
          \<and> length (a_grid ifp) = nat grid_size"
proof -
  obtain \<eta>s g1 where e: "randn draw (nat shock_draw_size) (seed 1234) = (\<eta>s, g1)"
    by (cases "randn draw (nat shock_draw_size) (seed 1234)")
  obtain \<zeta>s g2 where z: "randn draw (nat shock_draw_size) g1 = (\<zeta>s, g2)"
    by (cases "randn draw (nat shock_draw_size) g1")
  have "\<exists>grid. linspace 0 grid_max grid_size = Inr grid \<and> length grid = nat grid_size"
    using assms(2) by (auto simp: linspace_def)
  then obtain grid where
    l: "linspace 0 grid_max grid_size = Inr grid" "length grid = nat grid_size"
    by blast
  show ?thesis
    using assms(1) e z l by (simp add: IFP_init_def Let_def)
qed

theorem IFP_init_accepts_unvalidated_witness:
  "\<exists>ifp. fst (IFP_init (\<lambda>n. n) (\<lambda>g::nat. (0, Suc g)) 7 (5 / 2) 0 [[1, 1], [0, 0]]
                 [0, 1 / 2] (1 / 2) 2 0 3) = Inr ifp
     \<and> \<gamma> ifp = 5 / 2 \<and> \<beta> ifp = 0 \<and> P ifp = [[1, 1], [0, 0]] \<and> \<sigma>_vec ifp = [0, 1 / 2]
     \<and> s ifp = 1 / 2
     \<and> linspace 0 0 3 = Inr (a_grid ifp)
     \<and> length (a_grid ifp) = nat 3"
  by (rule IFP_init_accepts_unvalidated) simp_all

text \<open>
  C7 as stated fails: construction succeeds with a transition matrix whose rows do not
  sum to one, a negative discount factor and an empty grid (\<^verbatim>\<open>grid_size = 0\<close>), and with
  a decreasing grid (\<^verbatim>\<open>grid_max = -10\<close>).
\<close>

theorem IFP_init_invalid_parameters_counterexample:
  "fst (IFP_init (\<lambda>n. n) (\<lambda>g::nat. (0, Suc g)) 7 (5 / 2) (- 1) [[2, 3], [0, 0]]
          [0, 1 / 2] (1 / 2) 2 10 0)
     = Inr \<lparr>\<gamma> = 5 / 2, \<beta> = - 1, P = [[2, 3], [0, 0]], \<sigma>_vec = [0, 1 / 2], s = 1 / 2,
            a_grid = [], \<eta>_draws = [0, 0], \<zeta>_draws = [0, 0]\<rparr>
   \<and> fst (IFP_init (\<lambda>n. n) (\<lambda>g::nat. (0, Suc g)) 7 (5 / 2) (24 / 25)
          [[4 / 5, 1 / 5], [7 / 10, 3 / 10]] [0, 1 / 2] (1 / 2) 2 (- 10) 3)
     = Inr \<lparr>\<gamma> = 5 / 2, \<beta> = 24 / 25, P = [[4 / 5, 1 / 5], [7 / 10, 3 / 10]],
            \<sigma>_vec = [0, 1 / 2], s = 1 / 2, a_grid = [0, - 5, - 10],
            \<eta>_draws = [0, 0], \<zeta>_draws = [0, 0]\<rparr>"
  by (simp add: IFP_init_def Let_def linspace_def randn_zero_2 upt_rec)

text \<open>
  With an empty grid the failure comes only in the first pass of the solver, from the
  maximum of an array without elements.
\<close>

lemma solve_model_empty_grid:
  assumes "a_grid ifp = []" "0 < max_iter"
  shows "solve_model brentq interp ifp tol max_iter verbose print_skip = ([], Inl ValueError)"
proof -
  have k: "K brentq interp [[], []] ifp = Inr [[], []]"
    using assms(1) by (simp add: K_def empty_like_def initialised_def)
  have d: "np_max_abs_diff [[], []] [[], []] = Inl ValueError"
    by (simp add: np_max_abs_diff_def)
  show ?thesis
    using assms by (simp add: solve_model_def while_loop.simps [of _ _ _ _ _ _ _ 0] k d)
qed

section \<open>Reproducibility\<close>

text \<open>
  C8. The constructor seeds the generator itself, so the parameters it returns do not
  depend on the state of the generator it is called in; and the solver draws no random
  numbers. Hence two constructions with the same arguments, in whatever generator states
  \<open>g1\<close> and \<open>g2\<close>, followed by two solver runs with the same configuration, give the same
  parameters and the same output of the solver (or the same error).
\<close>

theorem solver_reproducible:
  "fst (IFP_init seed draw g1 \<gamma>0 \<beta>0 P0 \<sigma>0 s0 shock_draw_size grid_max grid_size)
     = fst (IFP_init seed draw g2 \<gamma>0 \<beta>0 P0 \<sigma>0 s0 shock_draw_size grid_max grid_size)
   \<and> map_sum id (\<lambda>ifp. solve_model brentq interp ifp tol max_iter verbose print_skip)
        (fst (IFP_init seed draw g1 \<gamma>0 \<beta>0 P0 \<sigma>0 s0 shock_draw_size grid_max grid_size))
     = map_sum id (\<lambda>ifp. solve_model brentq interp ifp tol max_iter verbose print_skip)
        (fst (IFP_init seed draw g2 \<gamma>0 \<beta>0 P0 \<sigma>0 s0 shock_draw_size grid_max grid_size))"
proof -
  have "fst (IFP_init seed draw g1 \<gamma>0 \<beta>0 P0 \<sigma>0 s0 shock_draw_size grid_max grid_size)
     = fst (IFP_init seed draw g2 \<gamma>0 \<beta>0 P0 \<sigma>0 s0 shock_draw_size grid_max grid_size)"
    by (simp add: IFP_init_def Let_def)
  then show ?thesis by simp
qed

theorem solver_reproducible_witness:
  "fst (IFP_init (\<lambda>n. n) (\<lambda>g::nat. (0, Suc g)) 7 (5 / 2) (24 / 25)
          [[4 / 5, 1 / 5], [7 / 10, 3 / 10]] [0, 1 / 2] (1 / 2) 2 10 3)
     = fst (IFP_init (\<lambda>n. n) (\<lambda>g::nat. (0, Suc g)) 99 (5 / 2) (24 / 25)
          [[4 / 5, 1 / 5], [7 / 10, 3 / 10]] [0, 1 / 2] (1 / 2) 2 10 3)
   \<and> map_sum id (\<lambda>ifp. solve_model halving_brentq interp_lin ifp (1 / 1000) 3 False 4)
        (fst (IFP_init (\<lambda>n. n) (\<lambda>g::nat. (0, Suc g)) 7 (5 / 2) (24 / 25)
          [[4 / 5, 1 / 5], [7 / 10, 3 / 10]] [0, 1 / 2] (1 / 2) 2 10 3))
     = map_sum id (\<lambda>ifp. solve_model halving_brentq interp_lin ifp (1 / 1000) 3 False 4)
        (fst (IFP_init (\<lambda>n. n) (\<lambda>g::nat. (0, Suc g)) 99 (5 / 2) (24 / 25)
          [[4 / 5, 1 / 5], [7 / 10, 3 / 10]] [0, 1 / 2] (1 / 2) 2 10 3))"
  by (rule solver_reproducible)

section \<open>Properties of the solver\<close>

lemma set_map2_nth:
  assumes "length xs = length ys"
  shows "set (map2 f xs ys) = {f (xs ! i) (ys ! i) | i. i < length xs}"
  using assms by (auto simp: set_zip)

lemma set_abs_diffs:
  fixes c c' :: policy
  assumes "map length c = map length c'"
  shows "set (concat (map2 (map2 (\<lambda>x y. \<bar>x - y\<bar>)) c c'))
           = {\<bar>c' ! z ! i - c ! z ! i\<bar> | z i. z < length c \<and> i < length (c ! z)}"
    (is "?L = ?R")
proof -
  let ?f = "\<lambda>x y :: real. \<bar>x - y\<bar>"
  have len: "length c = length c'"
    using assms by (rule map_eq_imp_length_eq)
  have row: "length (c ! z) = length (c' ! z)" if "z < length c" for z
    using arg_cong [OF assms, of "\<lambda>l. l ! z"] that len by simp
  have A: "set (map2 (map2 ?f) c c') = {map2 ?f (c ! z) (c' ! z) | z. z < length c}"
    by (rule set_map2_nth [OF len])
  have B: "set (map2 ?f (c ! z) (c' ! z)) = {?f (c ! z ! i) (c' ! z ! i) | i. i < length (c ! z)}"
    if "z < length c" for z
    by (rule set_map2_nth [OF row [OF that]])
  show ?thesis
  proof (intro set_eqI iffI)
    fix v
    assume "v \<in> ?L"
    then obtain l where l: "l \<in> set (map2 (map2 ?f) c c')" and v: "v \<in> set l"
      by (auto simp only: set_concat)
    from l obtain z where z: "z < length c" "l = map2 ?f (c ! z) (c' ! z)"
      unfolding A by blast
    from v obtain i where "i < length (c ! z)" "v = ?f (c ! z ! i) (c' ! z ! i)"
      unfolding z(2) B [OF z(1)] by blast
    then show "v \<in> ?R"
      using z(1) by (auto simp: abs_minus_commute)
  next
    fix v
    assume "v \<in> ?R"
    then obtain z i where zi: "z < length c" "i < length (c ! z)"
      and v: "v = \<bar>c' ! z ! i - c ! z ! i\<bar>"
      by blast
    have "map2 ?f (c ! z) (c' ! z) \<in> set (map2 (map2 ?f) c c')"
      unfolding A using zi(1) by blast
    moreover have "v \<in> set (map2 ?f (c ! z) (c' ! z))"
      unfolding B [OF zi(1)] using zi(2) v by (auto simp: abs_minus_commute)
    ultimately show "v \<in> ?L"
      by (auto simp only: set_concat)
  qed
qed

text \<open>On two arrays of one shape with a cell, the code's error is the sup-norm.\<close>

lemma np_max_abs_diff_sup_norm:
  assumes "map length c = map length c'" "z < length c" "c ! z \<noteq> []"
  shows "np_max_abs_diff c c' = Inr (sup_norm c c')"
proof -
  let ?ds = "concat (map2 (map2 (\<lambda>x y. \<bar>x - y\<bar>)) c c')"
  have s: "set ?ds = {\<bar>c' ! z ! i - c ! z ! i\<bar> | z i. z < length c \<and> i < length (c ! z)}"
    by (rule set_abs_diffs [OF assms(1)])
  have "\<bar>c' ! z ! 0 - c ! z ! 0\<bar> \<in> set ?ds"
    unfolding s using assms(2,3) by blast
  then have "?ds \<noteq> []"
    by (metis empty_iff empty_set)
  then obtain d ds where ds: "?ds = d # ds"
    by (cases ?ds) blast+
  have "fold max ds d = Max (set (d # ds))"
    by (rule Max.set_eq_fold [symmetric])
  also have "\<dots> = sup_norm c c'"
    unfolding sup_norm_def s [symmetric] ds ..
  finally have "fold max ds d = sup_norm c c'" .
  then show ?thesis
    unfolding np_max_abs_diff_def using assms(1) ds by simp
qed

lemma for_loop_invariant:
  assumes "for_loop body xs acc = Inr r" "I acc"
    and "\<And>x acc acc'. x \<in> set xs \<Longrightarrow> I acc \<Longrightarrow> body x acc = Inr acc' \<Longrightarrow> I acc'"
  shows "I r"
  using assms
proof (induction xs arbitrary: acc)
  case Nil
  then show ?case by simp
next
  case (Cons x xs)
  from Cons.prems(1) obtain acc' where b: "body x acc = Inr acc'"
    and f: "for_loop body xs acc' = Inr r"
    by (auto split: sum.splits)
  have acc': "I acc'" using Cons.prems(3) [of x acc acc'] Cons.prems(2) b by simp
  show ?case
  proof (rule Cons.IH [OF f acc'])
    fix y a a'
    assume "y \<in> set xs" "I a" "body y a = Inr a'"
    then show "I a'" using Cons.prems(3) [of y a a'] by simp
  qed
qed

lemma setitem2_shape:
  "setitem2 c_new i z v = Inr c' \<Longrightarrow> map length c' = map length c_new"
proof -
  assume a: "setitem2 c_new i z v = Inr c'"
  then have z: "z < length c_new" and c': "c' = c_new[z := (c_new ! z)[i := Some v]]"
    by (auto simp: setitem2_def split: if_splits)
  have "map length c' = (map length c_new)[z := map length c_new ! z]"
    using z by (simp add: c' map_update)
  then show ?thesis by simp
qed

text \<open>\<^verbatim>\<open>K\<close> returns an array of the shape of its argument.\<close>

lemma K_shape:
  assumes "K brentq interp c ifp = Inr c'"
  shows "map length c' = map length c"
proof -
  let ?inner = "\<lambda>i a. (\<lambda>z c_new.
               (case brentq (\<lambda>t. euler_diff interp t c a z ifp) (1 / 10 ^ 10) a of
                  Inl e \<Rightarrow> Inl e
                | Inr c_star \<Rightarrow> setitem2 c_new i z c_star))"
  let ?outer = "\<lambda>i c_new.
          (case getitem (a_grid ifp) i of Inl e \<Rightarrow> Inl e | Inr a \<Rightarrow>
             for_loop (?inner i a) [0, 1] c_new)"
  from assms obtain c_new where
    loop: "for_loop ?outer [0 ..< length (a_grid ifp)] (empty_like c) = Inr c_new"
    and ini: "initialised c_new = Inr c'"
    by (auto simp: K_def split: sum.splits)
  have inner: "map length acc' = map length c"
    if "map length acc = map length c" "for_loop (?inner i a) [0, 1] acc = Inr acc'"
    for i a acc acc'
    using that(2) that(1)
    by (rule for_loop_invariant) (auto split: sum.splits dest: setitem2_shape)
  have outer: "map length acc' = map length c"
    if "map length acc = map length c" "?outer i acc = Inr acc'" for i acc acc'
    using that inner by (auto split: sum.splits)
  have "map length c_new = map length c"
    using loop
  proof (rule for_loop_invariant)
    show "map length (empty_like c) = map length c"
      by (simp add: empty_like_def)
  next
    fix x acc acc'
    assume "map length acc = map length c" "?outer x acc = Inr acc'"
    then show "map length acc' = map length c" by (rule outer)
  qed
  moreover have "map length c' = map length c_new"
    using ini by (auto simp: initialised_def split: if_splits)
  ultimately show ?thesis by simp
qed

lemma progress_empty: "progress verbose print_skip es k k = []"
  by (simp add: progress_def)

lemma progress_step:
  assumes "m < k"
  shows "(if verbose \<and> (int m + 1) mod print_skip = 0
          then out @ [Error_at_iteration (int m + 1) (es (Suc m))] else out)
           @ progress verbose print_skip es (Suc m) k
         = out @ progress verbose print_skip es m k"
proof -
  have "[Suc m ..< Suc k] = Suc m # [Suc (Suc m) ..< Suc k]"
    using assms by (simp add: upt_conv_Cons)
  then show ?thesis
    by (simp add: progress_def add.commute)
qed

text \<open>
  The loop, started in the state after pass \<open>m\<close>, runs the passes up to \<open>k\<close> when the
  error stays above the tolerance before \<open>k\<close> and pass \<open>k\<close> meets the tolerance or the cap.
\<close>

lemma while_loop_run:
  assumes "\<And>j. j < k \<Longrightarrow> K brentq interp (cs j) ifp = Inr (cs (Suc j))"
    and "\<And>j. j < k \<Longrightarrow> np_max_abs_diff (cs j) (cs (Suc j)) = Inr (es (Suc j))"
    and "\<And>j. m \<le> j \<Longrightarrow> j < k \<Longrightarrow> tol < es j"
    and "int k \<le> max_iter" "verbose \<longrightarrow> print_skip \<noteq> 0" "m \<le> k"
    and "int k = max_iter \<or> es k \<le> tol"
  shows "while_loop brentq interp ifp tol max_iter verbose print_skip
           (int m, es m, cs m, cn, out)
         = (out @ progress verbose print_skip es m k,
            Inr (int k, if m = k then cn else Some (cs k)))"
  using assms(3,6)
proof (induction "k - m" arbitrary: m cn out)
  case 0
  then have mk: "m = k" by simp
  have c: "(int k < max_iter \<and> tol < es k) = False"
    using assms(7) by auto
  show ?case
    unfolding mk by (subst while_loop.simps) (simp add: c progress_empty)
next
  case (Suc d)
  then have lt: "m < k" and d: "d = k - Suc m" by simp_all
  have c: "int m < max_iter \<and> tol < es m"
    using lt assms(4) Suc.prems(1) [of m] by simp
  have rec: "while_loop brentq interp ifp tol max_iter verbose print_skip
               (int (Suc m), es (Suc m), cs (Suc m), Some (cs (Suc m)), out')
             = (out' @ progress verbose print_skip es (Suc m) k,
                Inr (int k, if Suc m = k then Some (cs (Suc m)) else Some (cs k)))" for out'
    using Suc.hyps(1) [OF d] Suc.prems(1) lt by simp
  have res: "(if Suc m = k then Some (cs (Suc m)) else Some (cs k)) = Some (cs k)"
    by auto
  have "while_loop brentq interp ifp tol max_iter verbose print_skip
          (int m, es m, cs m, cn, out)
        = while_loop brentq interp ifp tol max_iter verbose print_skip
            (int (Suc m), es (Suc m), cs (Suc m), Some (cs (Suc m)),
             if verbose \<and> (int m + 1) mod print_skip = 0
             then out @ [Error_at_iteration (int m + 1) (es (Suc m))] else out)"
    using c assms(1) [OF lt] assms(2) [OF lt] assms(5)
    by (subst while_loop.simps) (auto simp: add.commute)
  then show ?case
    using lt by (simp only: rec res progress_step [OF lt]) simp
qed

lemma solve_model_run:
  assumes "cs 0 = [a_grid ifp, a_grid ifp]"
    and "\<And>j. j < k \<Longrightarrow> K brentq interp (cs j) ifp = Inr (cs (Suc j))"
    and "\<And>j. j < k \<Longrightarrow> np_max_abs_diff (cs j) (cs (Suc j)) = Inr (es (Suc j))"
    and "\<And>j. 0 < j \<Longrightarrow> j < k \<Longrightarrow> tol < es j"
    and "0 < k" "int k \<le> max_iter" "verbose \<longrightarrow> print_skip \<noteq> 0"
    and "int k = max_iter \<or> es k \<le> tol"
  shows "solve_model brentq interp ifp tol max_iter verbose print_skip
         = (progress verbose print_skip es 0 k
              @ (if int k = max_iter then [Failed_to_converge] else [])
              @ (if verbose \<and> int k < max_iter then [Converged_in (int k)] else []),
            Inr (cs k))"
proof -
  let ?es = "es(0 := tol + 1)"
  have p: "progress verbose print_skip ?es 0 k = progress verbose print_skip es 0 k"
    by (simp add: progress_def)
  have "while_loop brentq interp ifp tol max_iter verbose print_skip
           (int 0, ?es 0, cs 0, None, [])
         = ([] @ progress verbose print_skip ?es 0 k,
            Inr (int k, if 0 = k then None else Some (cs k)))"
  proof (rule while_loop_run)
    show "np_max_abs_diff (cs j) (cs (Suc j)) = Inr (?es (Suc j))" if "j < k" for j
      using assms(3) [OF that] by simp
    show "tol < ?es j" if "0 \<le> j" "j < k" for j
      using assms(4) [of j] that by (cases "j = 0") simp_all
    show "int k = max_iter \<or> ?es k \<le> tol"
      using assms(5,8) by simp
  qed (use assms in simp_all)
  then have w: "while_loop brentq interp ifp tol max_iter verbose print_skip
           (0, tol + 1, [a_grid ifp, a_grid ifp], None, [])
         = (progress verbose print_skip es 0 k, Inr (int k, Some (cs k)))"
    using assms(1,5) p by simp
  show ?thesis
    by (auto simp: solve_model_def w Let_def)
qed

lemma K_iter_shape:
  assumes "\<And>j. j \<le> k \<Longrightarrow> K_iter brentq interp ifp j = Inr (cs j)" "j \<le> k"
  shows "map length (cs j) = [length (a_grid ifp), length (a_grid ifp)]"
  using assms(2)
proof (induction j)
  case 0
  have "cs 0 = [a_grid ifp, a_grid ifp]" using assms(1) [of 0] by simp
  then show ?case by simp
next
  case (Suc j)
  have "K brentq interp (cs j) ifp = Inr (cs (Suc j))"
    using assms(1) [of j] assms(1) [of "Suc j"] Suc.prems by simp
  then have "map length (cs (Suc j)) = map length (cs j)"
    by (rule K_shape)
  then show ?case using Suc by simp
qed

text \<open>
  What \<^verbatim>\<open>solve_model\<close> prints and returns when the first \<open>k\<close> applications of \<^verbatim>\<open>K\<close>
  succeed, the sup-norm error stays above the tolerance before pass \<open>k\<close>, and pass \<open>k\<close>
  meets the tolerance or is the last one the cap allows.
\<close>

lemma solve_model_run_iter:
  assumes "0 < k" "int k \<le> max_iter" "verbose \<longrightarrow> print_skip \<noteq> 0" "a_grid ifp \<noteq> []"
    and "\<And>j. j \<le> k \<Longrightarrow> K_iter brentq interp ifp j = Inr (cs j)"
    and "\<And>j. 0 < j \<Longrightarrow> j < k \<Longrightarrow> tol < sup_norm (cs (j - 1)) (cs j)"
    and "int k = max_iter \<or> sup_norm (cs (k - 1)) (cs k) \<le> tol"
  shows "solve_model brentq interp ifp tol max_iter verbose print_skip
         = (progress verbose print_skip (\<lambda>j. sup_norm (cs (j - 1)) (cs j)) 0 k
              @ (if int k = max_iter then [Failed_to_converge] else [])
              @ (if verbose \<and> int k < max_iter then [Converged_in (int k)] else []),
            Inr (cs k))"
proof (rule solve_model_run)
  show "cs 0 = [a_grid ifp, a_grid ifp]"
    using assms(5) [of 0] by simp
  show "K brentq interp (cs j) ifp = Inr (cs (Suc j))" if "j < k" for j
    using assms(5) [of j] assms(5) [of "Suc j"] that by simp
  show "np_max_abs_diff (cs j) (cs (Suc j)) = Inr (sup_norm (cs (Suc j - 1)) (cs (Suc j)))"
    if "j < k" for j
  proof -
    have a: "map length (cs j) = [length (a_grid ifp), length (a_grid ifp)]"
      and b: "map length (cs (Suc j)) = [length (a_grid ifp), length (a_grid ifp)]"
      using K_iter_shape [OF assms(5)] that by simp_all
    have l: "0 < length (cs j)" using a by auto
    have "length (cs j ! 0) = length (a_grid ifp)"
      using arg_cong [OF a, of "\<lambda>l. l ! 0"] l by simp
    then have "cs j ! 0 \<noteq> []" using assms(4) by auto
    then show ?thesis
      using np_max_abs_diff_sup_norm [of "cs j" "cs (Suc j)" 0] a b l by simp
  qed
qed (use assms in simp_all)

subsection \<open>An example run\<close>

lemma K_halving:
  "K halving_brentq interp [[x0, x1, x2], [y0, y1, y2]] two_state_ifp
     = Inr [[0, 5 / 2, 5], [0, 5 / 2, 5]]"
  by (simp add: K_def halving_brentq_def two_state_ifp_def getitem_def empty_like_def
      setitem2_def initialised_def upt_rec del: not_None_eq)

lemma K_iter_halving_0:
  "K_iter halving_brentq interp two_state_ifp 0 = Inr [[0, 5, 10], [0, 5, 10]]"
  by (simp add: two_state_ifp_def)

lemma two_state_ifp_a_grid: "a_grid two_state_ifp = [0, 5, 10]"
  by (simp add: two_state_ifp_def)

lemma K_iter_halving_Suc:
  "K_iter halving_brentq interp two_state_ifp (Suc n) = Inr [[0, 5 / 2, 5], [0, 5 / 2, 5]]"
  by (induction n) (simp_all add: two_state_ifp_a_grid K_halving)

lemma diff_first:
  "np_max_abs_diff [[0, 5, 10], [0, 5, 10]] [[0, 5 / 2, 5], [0, 5 / 2, 5]] = Inr 5"
  by (simp add: np_max_abs_diff_def)

lemma diff_second:
  "np_max_abs_diff [[0, 5 / 2, 5], [0, 5 / 2, 5]] [[0, 5 / 2, 5], [0, 5 / 2, 5]] = Inr 0"
  by (simp add: np_max_abs_diff_def)

lemma sup_norm_first: "sup_norm [[0, 5, 10], [0, 5, 10]] [[0, 5 / 2, 5], [0, 5 / 2, 5]] = 5"
  using np_max_abs_diff_sup_norm
          [of "[[0, 5, 10], [0, 5, 10]]" "[[0, 5 / 2, 5], [0, 5 / 2, 5]]" 0]
  by (simp add: diff_first)

lemma sup_norm_second:
  "sup_norm [[0, 5 / 2, 5], [0, 5 / 2, 5]] [[0, 5 / 2, 5], [0, 5 / 2, 5]] = 0"
  using np_max_abs_diff_sup_norm
          [of "[[0, 5 / 2, 5], [0, 5 / 2, 5]]" "[[0, 5 / 2, 5], [0, 5 / 2, 5]]" 0]
  by (simp add: diff_second)

lemma example_policies:
  "K_iter halving_brentq interp two_state_ifp j
     = Inr (if j = 0 then [[0, 5, 10], [0, 5, 10]] else [[0, 5 / 2, 5], [0, 5 / 2, 5]])"
  by (cases j) (simp_all add: K_iter_halving_0 K_iter_halving_Suc del: K_iter.simps)

lemma two_state_ifp_grid: "a_grid two_state_ifp \<noteq> []"
  by (simp add: two_state_ifp_def)

subsection \<open>The grid point of zero assets\<close>



text \<open>A grid that \<^verbatim>\<open>np.linspace(0, grid_max, grid_size)\<close> builds starts at \<open>0\<close>.\<close>

lemma linspace_first:
  assumes "linspace 0 grid_max grid_size = Inr grid" "0 < grid_size"
  shows "grid \<noteq> [] \<and> grid ! 0 = 0"
proof (cases "grid_size = 1")
  case True
  then show ?thesis using assms(1) by (auto simp: linspace_def)
next
  case False
  then have g: "grid = map (\<lambda>i. 0 + real i * ((grid_max - 0) / real (nat grid_size - 1)))
                        [0 ..< nat grid_size]"
    using assms by (auto simp: linspace_def)
  have "0 < nat grid_size" using assms(2) by simp
  then show ?thesis unfolding g by (simp add: upt_conv_Cons)
qed



subsection \<open>The run of the solver\<close>

text \<open>
  The loop stops at the first pass that meets the tolerance or is the last one the cap
  allows: if some pass \<open>k0\<close> within the cap does so and \<^verbatim>\<open>K\<close> succeeds up to it, there
  is a first such pass \<open>k\<close>, and it determines what is printed and returned.
\<close>

lemma solve_model_stops:
  assumes "0 < k0" "int k0 \<le> max_iter" "verbose \<longrightarrow> print_skip \<noteq> 0" "a_grid ifp \<noteq> []"
    and "\<And>j. j \<le> k0 \<Longrightarrow> K_iter brentq interp ifp j = Inr (cs j)"
    and "int k0 = max_iter \<or> sup_norm (cs (k0 - 1)) (cs k0) \<le> tol"
  shows "\<exists>k. 0 < k \<and> k \<le> k0
           \<and> (\<forall>j. 0 < j \<and> j < k \<longrightarrow> tol < sup_norm (cs (j - 1)) (cs j))
           \<and> (int k = max_iter \<or> sup_norm (cs (k - 1)) (cs k) \<le> tol)
           \<and> solve_model brentq interp ifp tol max_iter verbose print_skip
               = (progress verbose print_skip (\<lambda>j. sup_norm (cs (j - 1)) (cs j)) 0 k
                    @ (if int k = max_iter then [Failed_to_converge] else [])
                    @ (if verbose \<and> int k < max_iter then [Converged_in (int k)] else []),
                  Inr (cs k))"
proof -
  define stop where
    "stop k \<longleftrightarrow> 0 < k \<and> (int k = max_iter \<or> sup_norm (cs (k - 1)) (cs k) \<le> tol)" for k
  define k where "k = (LEAST k. stop k)"
  have "stop k0"
    using assms(1,6) by (simp add: stop_def)
  then have k: "stop k" and le: "k \<le> k0"
    unfolding k_def by (rule LeastI, rule Least_le)
  have before: "tol < sup_norm (cs (j - 1)) (cs j)" if "0 < j" "j < k" for j
  proof -
    have "\<not> stop j" using that(2) unfolding k_def by (rule not_less_Least)
    then show ?thesis using that(1) by (simp add: stop_def)
  qed
  have pos: "0 < k" and at: "int k = max_iter \<or> sup_norm (cs (k - 1)) (cs k) \<le> tol"
    using k by (simp_all add: stop_def)
  have cap: "int k \<le> max_iter" using le assms(2) by simp
  have iter: "K_iter brentq interp ifp j = Inr (cs j)" if "j \<le> k" for j
    using assms(5) [of j] that le by simp
  have "solve_model brentq interp ifp tol max_iter verbose print_skip
          = (progress verbose print_skip (\<lambda>j. sup_norm (cs (j - 1)) (cs j)) 0 k
               @ (if int k = max_iter then [Failed_to_converge] else [])
               @ (if verbose \<and> int k < max_iter then [Converged_in (int k)] else []),
             Inr (cs k))"
    using pos cap assms(3,4) iter before at by (rule solve_model_run_iter)
  then show ?thesis
    using pos le before at by blast
qed

text \<open>
  C2 (amended). Let the cap be at least one, the grid not empty, the progress report
  off or its interval \<^verbatim>\<open>print_skip\<close> not zero, and the applications of \<^verbatim>\<open>K\<close>
  to the consume-all-assets policy \<open>cs 0\<close> (both columns equal to the asset grid)
  succeed, with results \<open>cs 1\<close>, \<open>cs 2\<close>, ..., up to a pass \<open>k0\<close> within the cap at which
  the sup-norm error \<open>max\<^bsub>i,z\<^esub> \<bar>cs k0 [i,z] - cs (k0-1) [i,z]\<bar>\<close> meets the tolerance or
  which is pass number \<^verbatim>\<open>max_iter\<close>. Then \<^verbatim>\<open>solve_model\<close> stops after the first pass
  \<open>k\<close> that meets the tolerance or reaches the cap, the error of every earlier pass
  exceeding the tolerance, and returns \<open>cs k\<close>, the last policy computed, in either case.
\<close>

theorem solve_model_time_iteration:
  assumes "0 < k0" "int k0 \<le> max_iter" "verbose \<longrightarrow> print_skip \<noteq> 0" "a_grid ifp \<noteq> []"
    and "\<And>j. j \<le> k0 \<Longrightarrow> K_iter brentq interp ifp j = Inr (cs j)"
    and "int k0 = max_iter \<or> sup_norm (cs (k0 - 1)) (cs k0) \<le> tol"
  shows "cs 0 = [a_grid ifp, a_grid ifp]
         \<and> (\<exists>k. 0 < k \<and> k \<le> k0
               \<and> (\<forall>j. 0 < j \<and> j < k \<longrightarrow> tol < sup_norm (cs (j - 1)) (cs j))
               \<and> (int k = max_iter \<or> sup_norm (cs (k - 1)) (cs k) \<le> tol)
               \<and> snd (solve_model brentq interp ifp tol max_iter verbose print_skip)
                   = Inr (cs k))"
proof
  show "cs 0 = [a_grid ifp, a_grid ifp]"
    using assms(5) [of 0] by simp
next
  from solve_model_stops [OF assms]
  obtain k where "0 < k" "k \<le> k0"
    and "\<forall>j. 0 < j \<and> j < k \<longrightarrow> tol < sup_norm (cs (j - 1)) (cs j)"
    and "int k = max_iter \<or> sup_norm (cs (k - 1)) (cs k) \<le> tol"
    and "solve_model brentq interp ifp tol max_iter verbose print_skip
           = (progress verbose print_skip (\<lambda>j. sup_norm (cs (j - 1)) (cs j)) 0 k
                @ (if int k = max_iter then [Failed_to_converge] else [])
                @ (if verbose \<and> int k < max_iter then [Converged_in (int k)] else []),
              Inr (cs k))"
    by blast
  then show "\<exists>k. 0 < k \<and> k \<le> k0
               \<and> (\<forall>j. 0 < j \<and> j < k \<longrightarrow> tol < sup_norm (cs (j - 1)) (cs j))
               \<and> (int k = max_iter \<or> sup_norm (cs (k - 1)) (cs k) \<le> tol)
               \<and> snd (solve_model brentq interp ifp tol max_iter verbose print_skip)
                   = Inr (cs k)"
    by (intro exI [of _ k]) simp
qed

theorem solve_model_time_iteration_witness:
  "snd (solve_model halving_brentq interp_lin two_state_ifp (1 / 1000) 3 False 4)
     = Inr [[0, 5 / 2, 5], [0, 5 / 2, 5]]
   \<and> [[0, 5, 10], [0, 5, 10]] = [a_grid two_state_ifp, a_grid two_state_ifp]"
proof -
  let ?cs = "\<lambda>j::nat. if j = 0 then [[0, 5, 10], [0, 5, 10 :: real]]
                      else [[0, 5 / 2, 5], [0, 5 / 2, 5]]"
  have "?cs 0 = [a_grid two_state_ifp, a_grid two_state_ifp]
        \<and> (\<exists>k. 0 < k \<and> k \<le> 3
              \<and> (\<forall>j. 0 < j \<and> j < k \<longrightarrow> 1 / 1000 < sup_norm (?cs (j - 1)) (?cs j))
              \<and> (int k = 3 \<or> sup_norm (?cs (k - 1)) (?cs k) \<le> 1 / 1000)
              \<and> snd (solve_model halving_brentq interp_lin two_state_ifp (1 / 1000) 3 False 4)
                  = Inr (?cs k))"
  proof (rule solve_model_time_iteration)
    show "K_iter halving_brentq interp_lin two_state_ifp j = Inr (?cs j)" for j
      by (rule example_policies)
  qed (simp_all add: two_state_ifp_grid)
  then show ?thesis by auto
qed

lemma K_raising:
  "K raising_brentq interp [[x0, x1, x2], [y0, y1, y2]] two_state_ifp = Inl ValueError"
  by (simp add: K_def raising_brentq_def two_state_ifp_def getitem_def upt_rec)

lemma IFP_init_empty_grid:
  "fst (IFP_init (\<lambda>n. n) (\<lambda>g::nat. (0, Suc g)) 7 (5 / 2) (24 / 25)
          [[4 / 5, 1 / 5], [7 / 10, 3 / 10]] [0, 1 / 2] (1 / 2) 2 10 0) = Inr empty_grid_ifp"
  by (simp add: IFP_init_def Let_def linspace_def randn_zero_2 empty_grid_ifp_def)

text \<open>
  C2 as stated fails, for the solver does not return a policy for every parameters
  instance, tolerance and cap: with the empty grid that \<^verbatim>\<open>grid_size = 0\<close> constructs
  the first pass raises in \<^verbatim>\<open>np.max\<close>; a root finder that raises ends the run in the
  first application of \<^verbatim>\<open>K\<close>; and with the progress report on and \<^verbatim>\<open>print_skip = 0\<close>
  the first pass raises in \<^verbatim>\<open>i % print_skip\<close>.
\<close>

theorem solve_model_raises_counterexample:
  "fst (IFP_init (\<lambda>n. n) (\<lambda>g::nat. (0, Suc g)) 7 (5 / 2) (24 / 25)
          [[4 / 5, 1 / 5], [7 / 10, 3 / 10]] [0, 1 / 2] (1 / 2) 2 10 0) = Inr empty_grid_ifp
   \<and> solve_model halving_brentq interp_lin empty_grid_ifp (1 / 1000) 100 False 4
       = ([], Inl ValueError)
   \<and> solve_model raising_brentq interp_lin two_state_ifp (1 / 1000) 100 False 4
       = ([], Inl ValueError)
   \<and> solve_model halving_brentq interp_lin two_state_ifp (1 / 1000) 100 True 0
       = ([], Inl ZeroDivisionError)"
proof (intro conjI)
  show "fst (IFP_init (\<lambda>n. n) (\<lambda>g::nat. (0, Suc g)) 7 (5 / 2) (24 / 25)
          [[4 / 5, 1 / 5], [7 / 10, 3 / 10]] [0, 1 / 2] (1 / 2) 2 10 0) = Inr empty_grid_ifp"
    by (rule IFP_init_empty_grid)
  show "solve_model halving_brentq interp_lin empty_grid_ifp (1 / 1000) 100 False 4
          = ([], Inl ValueError)"
    by (rule solve_model_empty_grid) (simp_all add: empty_grid_ifp_def)
  show "solve_model raising_brentq interp_lin two_state_ifp (1 / 1000) 100 False 4
          = ([], Inl ValueError)"
    by (simp add: solve_model_def while_loop.simps [of _ _ _ _ _ _ _ 0] K_raising
        two_state_ifp_a_grid)
  show "solve_model halving_brentq interp_lin two_state_ifp (1 / 1000) 100 True 0
          = ([], Inl ZeroDivisionError)"
    by (simp add: solve_model_def while_loop.simps [of _ _ _ _ _ _ _ 0] K_halving diff_first
        two_state_ifp_a_grid)
qed

text \<open>
  C6 (amended). Let the grid not be empty, the progress report be off or its interval
  \<^verbatim>\<open>print_skip\<close> not zero, and the applications of \<^verbatim>\<open>K\<close> succeed up to a pass \<open>k0\<close>
  within the cap that meets the tolerance or is pass number \<^verbatim>\<open>max_iter\<close>. Then
  \<^verbatim>\<open>solve_model\<close> returns the policy array alone, with neither a convergence flag nor an
  iteration count: its value is the policy \<open>cs k\<close> of the first pass \<open>k\<close> that meets the
  tolerance or reaches the cap. When the cap is exhausted without the tolerance being
  met the run does not fail: the last policy computed is still returned, and
  \<^verbatim>\<open>Failed to converge!\<close> is printed. A run that stops before the cap does not print
  it.
\<close>

theorem solve_model_returns_policy_only:
  assumes "0 < k0" "int k0 \<le> max_iter" "verbose \<longrightarrow> print_skip \<noteq> 0" "a_grid ifp \<noteq> []"
    and "\<And>j. j \<le> k0 \<Longrightarrow> K_iter brentq interp ifp j = Inr (cs j)"
    and "int k0 = max_iter \<or> sup_norm (cs (k0 - 1)) (cs k0) \<le> tol"
  shows "\<exists>k. 0 < k \<and> k \<le> k0
           \<and> (\<forall>j. 0 < j \<and> j < k \<longrightarrow> tol < sup_norm (cs (j - 1)) (cs j))
           \<and> (int k = max_iter \<or> sup_norm (cs (k - 1)) (cs k) \<le> tol)
           \<and> snd (solve_model brentq interp ifp tol max_iter verbose print_skip) = Inr (cs k)
           \<and> (int k = max_iter \<and> tol < sup_norm (cs (k - 1)) (cs k)
                \<longrightarrow> Failed_to_converge
                      \<in> set (fst (solve_model brentq interp ifp tol max_iter verbose print_skip)))
           \<and> (int k < max_iter
                \<longrightarrow> Failed_to_converge
                      \<notin> set (fst (solve_model brentq interp ifp tol max_iter verbose print_skip)))"
proof -
  from solve_model_stops [OF assms]
  obtain k where k: "0 < k" "k \<le> k0"
    and before: "\<forall>j. 0 < j \<and> j < k \<longrightarrow> tol < sup_norm (cs (j - 1)) (cs j)"
    and at: "int k = max_iter \<or> sup_norm (cs (k - 1)) (cs k) \<le> tol"
    and run: "solve_model brentq interp ifp tol max_iter verbose print_skip
           = (progress verbose print_skip (\<lambda>j. sup_norm (cs (j - 1)) (cs j)) 0 k
                @ (if int k = max_iter then [Failed_to_converge] else [])
                @ (if verbose \<and> int k < max_iter then [Converged_in (int k)] else []),
              Inr (cs k))"
    by blast
  have quiet: "Failed_to_converge
          \<notin> set (progress verbose print_skip (\<lambda>j. sup_norm (cs (j - 1)) (cs j)) 0 k)"
    by (auto simp: progress_def)
  have printed: "Failed_to_converge
               \<in> set (fst (solve_model brentq interp ifp tol max_iter verbose print_skip))"
    if "int k = max_iter"
    unfolding run using that by simp
  have silent: "Failed_to_converge
               \<notin> set (fst (solve_model brentq interp ifp tol max_iter verbose print_skip))"
    if "int k < max_iter"
    unfolding run using that quiet by simp
  have "snd (solve_model brentq interp ifp tol max_iter verbose print_skip) = Inr (cs k)"
    unfolding run by simp
  then show ?thesis
    using k before at printed silent by blast
qed

theorem solve_model_returns_policy_only_witness:
  "snd (solve_model halving_brentq interp_lin two_state_ifp (1 / 1000) 1 True 4)
     = Inr [[0, 5 / 2, 5], [0, 5 / 2, 5]]
   \<and> 1 / 1000 < sup_norm [[0, 5, 10], [0, 5, 10]] [[0, 5 / 2, 5], [0, 5 / 2, 5]]
   \<and> Failed_to_converge
       \<in> set (fst (solve_model halving_brentq interp_lin two_state_ifp (1 / 1000) 1 True 4))"
proof -
  let ?cs = "\<lambda>j::nat. if j = 0 then [[0, 5, 10], [0, 5, 10 :: real]]
                      else [[0, 5 / 2, 5], [0, 5 / 2, 5]]"
  let ?run = "solve_model halving_brentq interp_lin two_state_ifp (1 / 1000) 1 True 4"
  have "\<exists>k. 0 < k \<and> k \<le> 1
          \<and> (\<forall>j. 0 < j \<and> j < k \<longrightarrow> 1 / 1000 < sup_norm (?cs (j - 1)) (?cs j))
          \<and> (int k = 1 \<or> sup_norm (?cs (k - 1)) (?cs k) \<le> 1 / 1000)
          \<and> snd ?run = Inr (?cs k)
          \<and> (int k = 1 \<and> 1 / 1000 < sup_norm (?cs (k - 1)) (?cs k)
               \<longrightarrow> Failed_to_converge \<in> set (fst ?run))
          \<and> (int k < 1 \<longrightarrow> Failed_to_converge \<notin> set (fst ?run))"
  proof (rule solve_model_returns_policy_only)
    show "K_iter halving_brentq interp_lin two_state_ifp j = Inr (?cs j)" for j
      by (rule example_policies)
  qed (simp_all add: two_state_ifp_grid)
  then obtain k :: nat where k: "0 < k" "k \<le> 1"
    and r: "snd ?run = Inr (?cs k)"
    and f: "int k = 1 \<and> 1 / 1000 < sup_norm (?cs (k - 1)) (?cs k)
              \<longrightarrow> Failed_to_converge \<in> set (fst ?run)"
    by blast
  have k1: "k = 1" using k by simp
  have e: "1 / 1000 < sup_norm [[0, 5, 10], [0, 5, 10]] [[0, 5 / 2, 5], [0, 5 / 2, 5]]"
    by (simp add: sup_norm_first)
  have "Failed_to_converge \<in> set (fst ?run)"
    using f e unfolding k1 by simp
  moreover have "snd ?run = Inr [[0, 5 / 2, 5], [0, 5 / 2, 5]]"
    using r unfolding k1 by simp
  ultimately show ?thesis using e by blast
qed

text \<open>
  C6 as stated fails: the value returned carries no flag and no count. A run that
  exhausts a cap of one pass with error \<open>5\<close> above the tolerance and a run that meets the
  tolerance in the second of three allowed passes return the same value; they differ only
  in what they print.
\<close>

theorem solve_model_no_flag_counterexample:
  "solve_model halving_brentq interp_lin two_state_ifp (1 / 1000) 1 False 4
     = ([Failed_to_converge], Inr [[0, 5 / 2, 5], [0, 5 / 2, 5]])
   \<and> solve_model halving_brentq interp_lin two_state_ifp (1 / 1000) 3 False 4
     = ([], Inr [[0, 5 / 2, 5], [0, 5 / 2, 5]])
   \<and> np_max_abs_diff [[0, 5, 10], [0, 5, 10]] [[0, 5 / 2, 5], [0, 5 / 2, 5]] = Inr 5"
  by (simp add: solve_model_def while_loop.simps K_halving diff_first diff_second
      two_state_ifp_def [THEN arg_cong [of _ _ a_grid]] Let_def)

end
